theory Spec2Isabelle
  imports Main "HOL-Library.AList" "HOL-Library.Char_ord" "HOL-Library.List_Lexorder"
begin

section \<open>Python values used by the hooks\<close>

text \<open>
  The hooks are Python 2 code (\<open>iteritems\<close>, \<open>except E, e\<close>, octal \<open>0444\<close>).
  Exceptions are values of \<open>error\<close>; a function that can raise returns \<open>error + 'a\<close>.
\<close>

datatype error =
    AssertionError
  | AttributeError
  | KeyError string
  | CalledProcessError "string list"

text \<open>
  A \<open>dict\<close> is modelled by the list of its items in the order in which iterating over it
  yields them; keys are looked up with \<open>map_of\<close> and stored with \<open>AList.update\<close>.
\<close>

type_synonym ('k, 'v) dict = "('k \<times> 'v) list"

text \<open>The values a configuration or a JSON snapshot holds (floats and containers left out).\<close>

datatype pyval = PNone | PBool bool | PInt int | PStr string

text \<open>Python's \<open>==\<close> on these values: \<open>True == 1\<close> and \<open>False == 0\<close>.\<close>

fun py_eq :: "pyval \<Rightarrow> pyval \<Rightarrow> bool" where
  "py_eq (PBool b) (PInt i) = (i = (if b then 1 else 0))"
| "py_eq (PInt i) (PBool b) = (i = (if b then 1 else 0))"
| "py_eq x y = (x = y)"

subsection \<open>Strings and paths\<close>

text \<open>\<open>str(n)\<close> and \<open>'{}'.format(n)\<close> for an integer: its decimal numeral.\<close>

definition digit_char :: "nat \<Rightarrow> char" where
  "digit_char d = ''0123456789'' ! d"

function str_nat :: "nat \<Rightarrow> string" where
  "str_nat n = (if n < 10 then [digit_char n] else str_nat (n div 10) @ [digit_char (n mod 10)])"
  by pat_completeness auto
termination
  by (relation "measure (\<lambda>n. n)") auto

declare str_nat.simps [simp del]

definition str_int :: "int \<Rightarrow> string" where
  "str_int i = (if i < 0 then CHR ''-'' # str_nat (nat (- i)) else str_nat (nat i))"

text \<open>\<open>sep.join(xs)\<close>\<close>

fun str_join :: "string \<Rightarrow> string list \<Rightarrow> string" where
  "str_join sep [] = []"
| "str_join sep [x] = x"
| "str_join sep (x # y # ys) = x @ sep @ str_join sep (y # ys)"

text \<open>\<open>s.replace('_', '-')\<close>; \<open>'_' in s\<close> is \<open>CHR ''_'' \<in> set s\<close>.\<close>

definition replace_char :: "char \<Rightarrow> char \<Rightarrow> string \<Rightarrow> string" where
  "replace_char a b s = map (\<lambda>c. if c = a then b else c) s"

text \<open>\<open>os.path.isabs\<close> and \<open>os.path.join\<close> of two components (posixpath).\<close>

definition isabs :: "string \<Rightarrow> bool" where
  "isabs s = (case s of [] \<Rightarrow> False | c # _ \<Rightarrow> c = CHR ''/'')"

definition path_join :: "string \<Rightarrow> string \<Rightarrow> string" where
  "path_join a b =
     (if isabs b then b
      else if a = [] \<or> last a = CHR ''/'' then a @ b
      else a @ ''/'' @ b)"

section \<open>peers.py: \<open>cli_peers\<close>\<close>

text \<open>\<open>'{}:{}'.format(peer, port)\<close> with a string peer and an integer port.\<close>

definition host_port :: "string \<Rightarrow> int \<Rightarrow> string" where
  "host_port h p = h @ '':'' @ str_int p"

text \<open>
  The loop of \<open>cli_peers\<close>: \<open>result\<close> is the accumulator, each peer extends it by two
  tokens.
\<close>

fun cli_peers_loop :: "string list \<Rightarrow> int \<Rightarrow> string list \<Rightarrow> string list" where
  "cli_peers_loop [] port result = result"
| "cli_peers_loop (peer # peers) port result =
     cli_peers_loop peers port (result @ [''--join'', host_port peer port])"

text \<open>
  \<open>cli_peers(peers=None, port=29015)\<close>. When \<open>peers\<close> is \<open>None\<close> the list comes from
  \<open>get_peers()\<close>, which queries the environment; its result is the parameter \<open>get_peers\<close>.
\<close>

definition cli_peers :: "string list \<Rightarrow> string list option \<Rightarrow> int \<Rightarrow> string" where
  "cli_peers get_peers peers port =
     (let peers' = (case peers of None \<Rightarrow> get_peers | Some ps \<Rightarrow> ps)
      in str_join '' '' (cli_peers_loop peers' port []))"

text \<open>What the specification calls the \<open>N\<close> pairs \<open>--join host:port\<close>, in order.\<close>

definition join_pairs :: "string list \<Rightarrow> int \<Rightarrow> string list" where
  "join_pairs hosts port = concat (map (\<lambda>h. [''--join'', host_port h port]) hosts)"

section \<open>services/helpers.py: \<open>RelationContext\<close>\<close>

text \<open>
  The settings of one unit on a relation: a \<open>dict\<close> from setting names to values.
\<close>

type_synonym settings = "(string, string) dict"

text \<open>
  What \<open>hookenv\<close> answers during one invocation: the relation ids of a relation name, the
  units related on a relation id, and the settings of a unit on a relation id
  (\<open>relation_get\<close> returns \<open>None\<close> when the answer does not parse).
\<close>

record juju_env =
  relation_ids :: "string \<Rightarrow> string list"
  related_units :: "string \<Rightarrow> string list"
  relation_get :: "string \<Rightarrow> string \<Rightarrow> settings option"

text \<open>
  A \<open>RelationContext\<close> is a \<open>dict\<close>; \<open>get_data\<close> stores a list of unit settings under
  the relation name.
\<close>

type_synonym relation_context = "(string, settings list) dict"

text \<open>\<open>_is_ready\<close>: \<open>set(unit_data.keys()).issuperset(set(self.required_keys))\<close>\<close>

definition unit_is_ready :: "string list \<Rightarrow> settings \<Rightarrow> bool" where
  "unit_is_ready required_keys unit_data = (set required_keys \<subseteq> set (map fst unit_data))"

text \<open>
  The inner loop of \<open>get_data\<close> over the sorted units of one relation id; \<open>ns\<close> is the list
  being appended to. \<open>reldata.keys()\<close> on \<open>None\<close> raises \<open>AttributeError\<close>.
\<close>

fun get_data_units ::
  "juju_env \<Rightarrow> string list \<Rightarrow> string \<Rightarrow> string list \<Rightarrow> settings list \<Rightarrow> error + settings list"
where
  "get_data_units env required_keys rid [] ns = Inr ns"
| "get_data_units env required_keys rid (unit # units) ns =
     (case relation_get env rid unit of
        None \<Rightarrow> Inl AttributeError
      | Some reldata \<Rightarrow>
          get_data_units env required_keys rid units
            (if unit_is_ready required_keys reldata then ns @ [reldata] else ns))"

text \<open>The outer loop over the sorted relation ids.\<close>

fun get_data_rids ::
  "juju_env \<Rightarrow> string list \<Rightarrow> string list \<Rightarrow> settings list \<Rightarrow> error + settings list"
where
  "get_data_rids env required_keys [] ns = Inr ns"
| "get_data_rids env required_keys (rid # rids) ns =
     (case get_data_units env required_keys rid (sort (related_units env rid)) ns of
        Inl e \<Rightarrow> Inl e
      | Inr ns' \<Rightarrow> get_data_rids env required_keys rids ns')"

text \<open>
  \<open>get_data\<close>: nothing happens without relation ids; otherwise
  \<open>ns = self.setdefault(self.name, [])\<close> and the loops append to \<open>ns\<close>.
\<close>

definition get_data ::
  "juju_env \<Rightarrow> string \<Rightarrow> string list \<Rightarrow> relation_context \<Rightarrow> error + relation_context"
where
  "get_data env name required_keys self =
     (if relation_ids env name = [] then Inr self
      else
        let ns = (case map_of self name of None \<Rightarrow> [] | Some l \<Rightarrow> l)
        in case get_data_rids env required_keys (sort (relation_ids env name)) ns of
             Inl e \<Rightarrow> Inl e
           | Inr ns' \<Rightarrow> Inr (AList.update name ns' self))"

text \<open>
  The constructor: the \<open>dict\<close> is initialised from the arguments (\<open>init\<close>), then
  \<open>get_data\<close> runs. The charm constructs its providers without arguments (\<open>init = []\<close>).
\<close>

definition RelationContext ::
  "juju_env \<Rightarrow> string \<Rightarrow> string list \<Rightarrow> relation_context \<Rightarrow> error + relation_context"
where
  "RelationContext env name required_keys init = get_data env name required_keys init"

text \<open>\<open>self.get(self.name, [])\<close>: the collected units.\<close>

definition collected :: "relation_context \<Rightarrow> string \<Rightarrow> settings list" where
  "collected self name = (case map_of self name of None \<Rightarrow> [] | Some l \<Rightarrow> l)"

text \<open>\<open>is_ready\<close>: \<open>len(self.get(self.name, [])) > 0\<close>\<close>

definition is_ready :: "relation_context \<Rightarrow> string \<Rightarrow> bool" where
  "is_ready self name = (length (collected self name) > 0)"

text \<open>
  The answers to the queries that \<open>get_data\<close> makes, in the order it makes them: relation
  ids sorted, and the units of each sorted.
\<close>

definition queried :: "juju_env \<Rightarrow> string \<Rightarrow> settings option list" where
  "queried env name =
     concat (map (\<lambda>rid. map (relation_get env rid) (sort (related_units env rid)))
                 (sort (relation_ids env name)))"

text \<open>
  An environment with one relation id and two units, of which only the first has
  published its private address.
\<close>

definition env_partial :: juju_env where
  "env_partial =
     \<lparr> relation_ids = (\<lambda>n. if n = ''intracluster'' then [''intracluster:0''] else []),
       related_units = (\<lambda>r. if r = ''intracluster:0'' then [''rethinkdb/1'', ''rethinkdb/0''] else []),
       relation_get = (\<lambda>r u. if u = ''rethinkdb/0''
                              then Some [(''private-address'', ''10.0.0.10'')]
                              else Some []) \<rparr>"

section \<open>contrib/docker: providers of argument fragments\<close>

subsection \<open>\<open>DockerPortMappings\<close>\<close>

text \<open>
  A \<open>dict\<close> from host port to container port. \<open>build_args\<close> iterates
  \<open>self.iteritems()\<close> and extends \<open>ports\<close> by \<open>'-p'\<close> and \<open>'{}:{}'.format(src, dst)\<close>.
\<close>

definition port_pair :: "int \<Rightarrow> int \<Rightarrow> string" where
  "port_pair src dst = str_int src @ '':'' @ str_int dst"

fun port_args_loop :: "(int, int) dict \<Rightarrow> string list \<Rightarrow> string list" where
  "port_args_loop [] ports = ports"
| "port_args_loop ((src, dst) # items) ports =
     port_args_loop items (ports @ [''-p'', port_pair src dst])"

definition DockerPortMappings_build_args :: "(int, int) dict \<Rightarrow> string list" where
  "DockerPortMappings_build_args self = port_args_loop self []"

subsection \<open>\<open>DockerVolumes\<close>\<close>

record docker_volumes =
  volumes :: "string list"
  named_volumes :: "(string, string) dict"
  mapped_volumes :: "(string, string) dict"

text \<open>
  Truth value of an optional collection: \<open>None\<close> and the empty collection are false.
  \<open>x or []\<close> is \<open>x\<close> when \<open>x\<close> is true and the empty collection otherwise.
\<close>

definition truthy :: "'a list option \<Rightarrow> bool" where
  "truthy x = (case x of None \<Rightarrow> False | Some xs \<Rightarrow> xs \<noteq> [])"

definition or_empty :: "'a list option \<Rightarrow> 'a list" where
  "or_empty x = (case x of None \<Rightarrow> [] | Some xs \<Rightarrow> (if xs \<noteq> [] then xs else []))"

fun py_any :: "bool list \<Rightarrow> bool" where
  "py_any [] = False"
| "py_any (b # bs) = (if b then True else py_any bs)"

definition DockerVolumes_init ::
  "string list option \<Rightarrow> (string, string) dict option \<Rightarrow> (string, string) dict option
     \<Rightarrow> error + docker_volumes"
where
  "DockerVolumes_init vols named mapped =
     (if \<not> py_any [truthy vols, truthy named, truthy mapped] then Inl AssertionError
      else Inr \<lparr> volumes = or_empty vols,
                 named_volumes = or_empty named,
                 mapped_volumes = or_empty mapped \<rparr>)"

subsection \<open>The world a hook acts on\<close>

text \<open>
  What a hook does to its surroundings is recorded in order: commands run with
  \<open>subprocess.check_call\<close> (a non-zero exit raises) or \<open>subprocess.call\<close> (the exit
  status is returned), files removed, directories made.
\<close>

datatype action =
    CheckCall "string list"
  | Call "string list"
  | OsRemove string
  | Mkdir string

record world =
  environ_CHARM_DIR :: "string option"
  files :: "string \<Rightarrow> string option"
  issued :: "action list"

definition do_action :: "action \<Rightarrow> world \<Rightarrow> world" where
  "do_action a w = w\<lparr>issued := issued w @ [a]\<rparr>"

text \<open>
  \<open>subprocess.check_call(cmd)\<close>; \<open>exit_ok cmd\<close> says whether the command exits with
  status zero.
\<close>

definition check_call :: "(string list \<Rightarrow> bool) \<Rightarrow> string list \<Rightarrow> world \<Rightarrow> (error + unit) \<times> world" where
  "check_call exit_ok cmd w =
     (if exit_ok cmd then Inr () else Inl (CalledProcessError cmd), do_action (CheckCall cmd) w)"

text \<open>\<open>DockerVolumes.build_args\<close>, one loop after the other.\<close>

fun volumes_loop :: "string list \<Rightarrow> string list \<Rightarrow> string list" where
  "volumes_loop [] args = args"
| "volumes_loop (volume # vs) args = volumes_loop vs (args @ [''-v'', volume])"

fun named_volumes_loop :: "(string, string) dict \<Rightarrow> string list \<Rightarrow> string list" where
  "named_volumes_loop [] args = args"
| "named_volumes_loop ((name, volume) # items) args =
     named_volumes_loop items (args @ [''-v'', volume, ''--name'', name])"

text \<open>
  A relative host path is joined to \<open>hookenv.charm_dir()\<close>, which is \<open>None\<close> when
  \<open>CHARM_DIR\<close> is not set (\<open>os.path.join(None, ...)\<close> raises \<open>AttributeError\<close>);
  \<open>host.mkdir\<close> is recorded as an action.
\<close>

fun mapped_volumes_loop ::
  "(string, string) dict \<Rightarrow> string list \<Rightarrow> world \<Rightarrow> (error + string list) \<times> world"
where
  "mapped_volumes_loop [] args w = (Inr args, w)"
| "mapped_volumes_loop ((host_path, volume) # items) args w =
     (if isabs host_path
      then mapped_volumes_loop items (args @ [''-v'', str_join '':'' [host_path, volume]])
             (do_action (Mkdir host_path) w)
      else (case environ_CHARM_DIR w of
              None \<Rightarrow> (Inl AttributeError, w)
            | Some d \<Rightarrow>
                mapped_volumes_loop items
                  (args @ [''-v'', str_join '':'' [path_join d host_path, volume]])
                  (do_action (Mkdir (path_join d host_path)) w)))"

definition DockerVolumes_build_args :: "docker_volumes \<Rightarrow> world \<Rightarrow> (error + string list) \<times> world" where
  "DockerVolumes_build_args self w =
     mapped_volumes_loop (mapped_volumes self)
       (named_volumes_loop (named_volumes self) (volumes_loop (volumes self) [])) w"

subsection \<open>\<open>DockerContainerArgs\<close>\<close>

fun kwargs_loop :: "(string, string) dict \<Rightarrow> string list \<Rightarrow> string list" where
  "kwargs_loop [] args = args"
| "kwargs_loop ((key, v) # items) args =
     kwargs_loop items (args @ [''--'' @ replace_char CHR ''_'' CHR ''-'' key, v])"

definition DockerContainerArgs_init :: "string list \<Rightarrow> (string, string) dict \<Rightarrow> string list" where
  "DockerContainerArgs_init args kwargs = kwargs_loop kwargs args"

subsection \<open>\<open>DockerRelation\<close> and common.py's \<open>ClusterPeers\<close>\<close>

text \<open>
  \<open>DockerRelation.map\<close>: \<open>'--{}'.format(key)\<close> and \<open>str(value)\<close> for every setting.
\<close>

fun DockerRelation_map_loop :: "settings \<Rightarrow> string list \<Rightarrow> string list" where
  "DockerRelation_map_loop [] args = args"
| "DockerRelation_map_loop ((key, v) # items) args =
     DockerRelation_map_loop items (args @ [''--'' @ key, v])"

definition DockerRelation_map :: "settings \<Rightarrow> error + string list" where
  "DockerRelation_map relation_settings = Inr (DockerRelation_map_loop relation_settings [])"

text \<open>
  \<open>ClusterPeers.map\<close> reads \<open>relation_settings['private-address']\<close>, which raises
  \<open>KeyError\<close> when the key is missing.
\<close>

definition ClusterPeers_map :: "int \<Rightarrow> settings \<Rightarrow> error + string list" where
  "ClusterPeers_map port relation_settings =
     (case map_of relation_settings ''private-address'' of
        None \<Rightarrow> Inl (KeyError ''private-address'')
      | Some addr \<Rightarrow> Inr [''--join'', host_port addr port])"

text \<open>
  \<open>DockerRelation.build_args\<close>: \<open>args = []\<close>, then \<open>args.extend(self.map(unit))\<close> for every
  collected unit; the first exception ends the loop.
\<close>

fun relation_build_args ::
  "(settings \<Rightarrow> error + string list) \<Rightarrow> settings list \<Rightarrow> string list \<Rightarrow> error + string list"
where
  "relation_build_args mp [] args = Inr args"
| "relation_build_args mp (unit # units) args =
     (case mp unit of
        Inl e \<Rightarrow> Inl e
      | Inr frag \<Rightarrow> relation_build_args mp units (args @ frag))"

definition DockerRelation_build_args ::
  "(settings \<Rightarrow> error + string list) \<Rightarrow> string \<Rightarrow> relation_context \<Rightarrow> error + string list"
where
  "DockerRelation_build_args mp name self = relation_build_args mp (collected self name) []"

definition ClusterPeers_build_args :: "int \<Rightarrow> settings list \<Rightarrow> error + string list" where
  "ClusterPeers_build_args port units = relation_build_args (ClusterPeers_map port) units []"

section \<open>contrib/docker: \<open>DockerCallback\<close>\<close>

text \<open>
  The items of a service's \<open>required_data\<close>. \<open>DockerRelation\<close> (with its \<open>map\<close> method,
  relation name and contents) is a subclass of \<open>DockerContainerArgs\<close>; any other item
  (a plain \<open>RelationContext\<close>, say) is \<open>OtherProvider\<close>.
\<close>

datatype provider =
    PortMappings "(int, int) dict"
  | Volumes docker_volumes
  | ContainerArgs "string list"
  | Relation "settings \<Rightarrow> error + string list" string relation_context
  | OtherProvider

datatype arg_type = DockerPortMappings | DockerVolumes | DockerContainerArgs

fun isinstance :: "provider \<Rightarrow> arg_type \<Rightarrow> bool" where
  "isinstance (PortMappings _) t = (t = DockerPortMappings)"
| "isinstance (Volumes _) t = (t = DockerVolumes)"
| "isinstance (ContainerArgs _) t = (t = DockerContainerArgs)"
| "isinstance (Relation _ _ _) t = (t = DockerContainerArgs)"
| "isinstance OtherProvider t = False"

text \<open>\<open>provider.build_args()\<close>, dispatched on the class; only called after \<open>isinstance\<close>.\<close>

fun build_args :: "provider \<Rightarrow> world \<Rightarrow> (error + string list) \<times> world" where
  "build_args (PortMappings d) w = (Inr (DockerPortMappings_build_args d), w)"
| "build_args (Volumes v) w = DockerVolumes_build_args v w"
| "build_args (ContainerArgs a) w = (Inr a, w)"
| "build_args (Relation mp name self) w = (DockerRelation_build_args mp name self, w)"
| "build_args OtherProvider w = (Inl AttributeError, w)"

text \<open>The loop of \<open>_get_args\<close> over \<open>service['required_data']\<close>.\<close>

fun get_args_loop ::
  "arg_type \<Rightarrow> provider list \<Rightarrow> string list \<Rightarrow> world \<Rightarrow> (error + string list) \<times> world"
where
  "get_args_loop t [] args w = (Inr args, w)"
| "get_args_loop t (p # ps) args w =
     (if isinstance p t
      then (case build_args p w of
              (Inl e, w') \<Rightarrow> (Inl e, w')
            | (Inr a, w') \<Rightarrow> get_args_loop t ps (args @ a) w')
      else get_args_loop t ps args w)"

text \<open>
  \<open>_get_args\<close>. The service manager is not part of the hooks' own sources: the parameter
  \<open>manager\<close> gives the \<open>required_data\<close> of a registered service, and \<open>get_service\<close>
  raises \<open>KeyError\<close> for any other name.
\<close>

definition get_args ::
  "(string \<Rightarrow> provider list option) \<Rightarrow> string \<Rightarrow> arg_type \<Rightarrow> world \<Rightarrow> (error + string list) \<times> world"
where
  "get_args manager service_name t w =
     (case manager service_name of
        None \<Rightarrow> (Inl (KeyError service_name), w)
      | Some required_data \<Rightarrow> get_args_loop t required_data [] w)"

text \<open>
  The first half of \<open>__call__\<close>: when the file exists, read the container id, stop that
  container, remove the file.
\<close>

definition stop_tracked :: "(string list \<Rightarrow> bool) \<Rightarrow> string \<Rightarrow> world \<Rightarrow> (error + unit) \<times> world" where
  "stop_tracked exit_ok container_id_file w =
     (case files w container_id_file of
        None \<Rightarrow> (Inr (), w)
      | Some container_id \<Rightarrow>
          (case check_call exit_ok [''docker'', ''stop'', container_id] w of
             (Inl e, w') \<Rightarrow> (Inl e, w')
           | (Inr _, w') \<Rightarrow>
               (Inr (), do_action (OsRemove container_id_file)
                          (w'\<lparr>files := (files w')(container_id_file := None)\<rparr>))))"

text \<open>
  The second half: the argument list is evaluated left to right, then the command runs.
\<close>

definition run_container ::
  "(string list \<Rightarrow> bool) \<Rightarrow> (string \<Rightarrow> provider list option) \<Rightarrow> string \<Rightarrow> string \<Rightarrow> world
     \<Rightarrow> (error + unit) \<times> world"
where
  "run_container exit_ok manager service_name container_id_file w =
     (case get_args manager service_name DockerVolumes w of
        (Inl e, w1) \<Rightarrow> (Inl e, w1)
      | (Inr volume_args, w1) \<Rightarrow>
     (case get_args manager service_name DockerPortMappings w1 of
        (Inl e, w2) \<Rightarrow> (Inl e, w2)
      | (Inr port_args, w2) \<Rightarrow>
     (case get_args manager service_name DockerContainerArgs w2 of
        (Inl e, w3) \<Rightarrow> (Inl e, w3)
      | (Inr container_args, w3) \<Rightarrow>
          check_call exit_ok
            ([''docker'', ''run'', ''-d'', ''-cidfile'', container_id_file]
               @ volume_args @ port_args @ [service_name] @ container_args) w3)))"

definition DockerCallback_call ::
  "(string list \<Rightarrow> bool) \<Rightarrow> (string \<Rightarrow> provider list option) \<Rightarrow> string \<Rightarrow> string \<Rightarrow> world
     \<Rightarrow> (error + unit) \<times> world"
where
  "DockerCallback_call exit_ok manager service_name event_name w =
     (case environ_CHARM_DIR w of
        None \<Rightarrow> (Inl AttributeError, w)
      | Some d \<Rightarrow>
          (let container_id_file = path_join d ''CONTAINER_ID''
           in case stop_tracked exit_ok container_id_file w of
                (Inl e, w') \<Rightarrow> (Inl e, w')
              | (Inr _, w') \<Rightarrow>
                  (if event_name = ''start''
                   then run_container exit_ok manager service_name container_id_file w'
                   else (Inr (), w'))))"

text \<open>A \<open>docker run\<close> command, and the actions issued by a call: those added to the record.\<close>

definition is_run :: "action \<Rightarrow> bool" where
  "is_run a = (case a of CheckCall (c # s # _) \<Rightarrow> c = ''docker'' \<and> s = ''run'' | _ \<Rightarrow> False)"

definition new_actions :: "world \<Rightarrow> world \<Rightarrow> action list" where
  "new_actions w w' = drop (length (issued w)) (issued w')"

section \<open>core/host.py: \<open>restart_on_change\<close>\<close>

text \<open>
  \<open>file_hash\<close>: the digest of the content, or \<open>None\<close> when the path does not exist. The
  digest function is a parameter.
\<close>

definition file_hash :: "(string \<Rightarrow> string) \<Rightarrow> (string \<Rightarrow> string option) \<Rightarrow> string \<Rightarrow> string option" where
  "file_hash md5 fs path = (case fs path of None \<Rightarrow> None | Some content \<Rightarrow> Some (md5 content))"

text \<open>First loop: \<open>checksums[path] = file_hash(path)\<close> for every path of the map.\<close>

fun checksums_loop ::
  "(string \<Rightarrow> string) \<Rightarrow> (string \<Rightarrow> string option) \<Rightarrow> string list
     \<Rightarrow> (string, string option) dict \<Rightarrow> (string, string option) dict"
where
  "checksums_loop md5 fs [] checksums = checksums"
| "checksums_loop md5 fs (path # paths) checksums =
     checksums_loop md5 fs paths (AList.update path (file_hash md5 fs path) checksums)"

text \<open>
  Second loop: \<open>restarts += restart_map[path]\<close> for every path whose hash differs; a
  subscript on a missing key raises \<open>KeyError\<close>.
\<close>

fun restarts_loop ::
  "(string \<Rightarrow> string) \<Rightarrow> (string \<Rightarrow> string option) \<Rightarrow> (string, string list) dict
     \<Rightarrow> (string, string option) dict \<Rightarrow> string list \<Rightarrow> string list \<Rightarrow> error + string list"
where
  "restarts_loop md5 fs restart_map checksums [] restarts = Inr restarts"
| "restarts_loop md5 fs restart_map checksums (path # paths) restarts =
     (case map_of checksums path of
        None \<Rightarrow> Inl (KeyError path)
      | Some before \<Rightarrow>
          (if before \<noteq> file_hash md5 fs path
           then (case map_of restart_map path of
                   None \<Rightarrow> Inl (KeyError path)
                 | Some services \<Rightarrow>
                     restarts_loop md5 fs restart_map checksums paths (restarts @ services))
           else restarts_loop md5 fs restart_map checksums paths restarts))"

text \<open>
  \<open>list(OrderedDict.fromkeys(restarts))\<close>: every key once, in the order of first
  insertion.
\<close>

fun fromkeys_loop :: "'a list \<Rightarrow> 'a list \<Rightarrow> 'a list" where
  "fromkeys_loop [] keys = keys"
| "fromkeys_loop (x # xs) keys = fromkeys_loop xs (if x \<in> set keys then keys else keys @ [x])"

definition OrderedDict_fromkeys :: "'a list \<Rightarrow> 'a list" where
  "OrderedDict_fromkeys xs = fromkeys_loop xs []"

text \<open>\<open>service(action, service_name)\<close> runs \<open>['service', service_name, action]\<close>.\<close>

definition service :: "string \<Rightarrow> string \<Rightarrow> action" where
  "service act service_name = Call [''service'', service_name, act]"

text \<open>
  \<open>wrapped_f\<close>. The guarded function \<open>f\<close> changes the file system or raises; the result is
  the new file system and the service commands issued, in order.
\<close>

definition restart_on_change ::
  "(string \<Rightarrow> string) \<Rightarrow> (string, string list) dict \<Rightarrow> bool
     \<Rightarrow> ((string \<Rightarrow> string option) \<Rightarrow> error + (string \<Rightarrow> string option))
     \<Rightarrow> (string \<Rightarrow> string option) \<Rightarrow> error + (string \<Rightarrow> string option) \<times> action list"
where
  "restart_on_change md5 restart_map stopstart f fs =
     (let checksums = checksums_loop md5 fs (map fst restart_map) []
      in case f fs of
           Inl e \<Rightarrow> Inl e
         | Inr fs' \<Rightarrow>
             (case restarts_loop md5 fs' restart_map checksums (map fst restart_map) [] of
                Inl e \<Rightarrow> Inl e
              | Inr restarts \<Rightarrow>
                  (let services_list = OrderedDict_fromkeys restarts
                   in if \<not> stopstart
                      then Inr (fs', map (service ''restart'') services_list)
                      else Inr (fs', concat (map (\<lambda>act. map (service act) services_list)
                                                  [''stop'', ''start''])))))"

text \<open>
  The paths of the map whose hash differs between two file systems, and the services
  mapped to them, in the order of the map.
\<close>

definition changed_paths ::
  "(string \<Rightarrow> string) \<Rightarrow> (string, string list) dict \<Rightarrow> (string \<Rightarrow> string option)
     \<Rightarrow> (string \<Rightarrow> string option) \<Rightarrow> (string \<times> string list) list"
where
  "changed_paths md5 restart_map fs fs' =
     filter (\<lambda>(path, services). file_hash md5 fs path \<noteq> file_hash md5 fs' path) restart_map"

text \<open>
  De-duplication that keeps the first occurrence of every element: the head stays, and
  its later repetitions are removed from the de-duplicated rest.
\<close>

fun first_seen :: "'a list \<Rightarrow> 'a list" where
  "first_seen [] = []"
| "first_seen (x # xs) = x # removeAll x (first_seen xs)"

text \<open>
  The services to act on after a guarded operation took the file system from \<open>fs\<close> to
  \<open>fs'\<close>: those mapped to the changed paths, each once, in first-seen order.
\<close>

definition restart_targets ::
  "(string \<Rightarrow> string) \<Rightarrow> (string, string list) dict \<Rightarrow> (string \<Rightarrow> string option)
     \<Rightarrow> (string \<Rightarrow> string option) \<Rightarrow> string list"
where
  "restart_targets md5 restart_map fs fs' =
     first_seen (concat (map snd (changed_paths md5 restart_map fs fs')))"

text \<open>A watched map, a file system and a guarded operation that writes two of the watched files.\<close>

definition watched :: "(string, string list) dict" where
  "watched = [(''/etc/a.conf'', [''api'', ''volume'']),
              (''/etc/b.conf'', [''volume'', ''scheduler'']),
              (''/etc/c.conf'', [''api'', ''proxy''])]"

definition fs_before :: "string \<Rightarrow> string option" where
  "fs_before = [''/etc/a.conf'' \<mapsto> ''one'', ''/etc/c.conf'' \<mapsto> ''three'']"

definition write_b_and_a :: "(string \<Rightarrow> string option) \<Rightarrow> error + (string \<Rightarrow> string option)" where
  "write_b_and_a fs = Inr (fs(''/etc/b.conf'' \<mapsto> ''two'', ''/etc/a.conf'' \<mapsto> ''uno''))"

section \<open>core/hookenv.py: \<open>Config\<close>\<close>

text \<open>
  The current mapping, the previous snapshot (\<open>None\<close> until one is loaded) and the path of
  the snapshot file. The disk maps a path to the mapping stored there as JSON.
\<close>

record config =
  current :: "(string, pyval) dict"
  prev_dict :: "(string, pyval) dict option"
  path :: string

type_synonym disk = "string \<Rightarrow> (string, pyval) dict option"

definition load_previous :: "disk \<Rightarrow> config \<Rightarrow> config" where
  "load_previous dsk self = self\<lparr>prev_dict := dsk (path self)\<rparr>"

text \<open>
  The constructor, given the configuration data and the charm directory: the snapshot is
  loaded when its file exists.
\<close>

definition Config_init :: "disk \<Rightarrow> string \<Rightarrow> (string, pyval) dict \<Rightarrow> config" where
  "Config_init dsk charm_dir data =
     (let self = \<lparr> current = data, prev_dict = None,
                   path = path_join charm_dir ''.juju-persistent-config'' \<rparr>
      in if dsk (path self) \<noteq> None then load_previous dsk self else self)"

text \<open>\<open>d.get(key)\<close>: the value, or \<open>None\<close> for a missing key.\<close>

definition dict_get :: "(string, pyval) dict \<Rightarrow> string \<Rightarrow> pyval" where
  "dict_get d key = (case map_of d key of None \<Rightarrow> PNone | Some v \<Rightarrow> v)"

text \<open>\<open>previous\<close>: \<open>if self._prev_dict\<close> is false for \<open>None\<close> and for the empty \<open>dict\<close>.\<close>

definition previous :: "config \<Rightarrow> string \<Rightarrow> pyval" where
  "previous self key = (if truthy (prev_dict self) then dict_get (the (prev_dict self)) key else PNone)"

definition changed :: "config \<Rightarrow> string \<Rightarrow> bool" where
  "changed self key =
     (if prev_dict self = None then True
      else \<not> py_eq (previous self key) (dict_get (current self) key))"

text \<open>The loop of \<open>save\<close>: \<open>if k not in self: self[k] = v\<close>.\<close>

fun save_loop :: "(string, pyval) dict \<Rightarrow> (string, pyval) dict \<Rightarrow> (string, pyval) dict" where
  "save_loop [] self = self"
| "save_loop ((k, v) # items) self =
     save_loop items (if map_of self k = None then AList.update k v self else self)"

definition save :: "config \<Rightarrow> disk \<Rightarrow> config \<times> disk" where
  "save self dsk =
     (let cur = (if truthy (prev_dict self) then save_loop (the (prev_dict self)) (current self)
                 else current self)
      in (self\<lparr>current := cur\<rparr>, dsk(path self := Some cur)))"

section \<open>core/hookenv.py: \<open>Hooks\<close>\<close>

text \<open>A function object: its \<open>__name__\<close> and what it does.\<close>

record 'a pyfunction =
  func_name :: string
  func_code :: 'a

text \<open>\<open>register\<close>: \<open>self._hooks[name] = function\<close>\<close>

definition register :: "string \<Rightarrow> 'a pyfunction \<Rightarrow> (string, 'a pyfunction) dict \<Rightarrow> (string, 'a pyfunction) dict" where
  "register name function hooks = AList.update name function hooks"

fun hook_loop :: "string list \<Rightarrow> 'a pyfunction \<Rightarrow> (string, 'a pyfunction) dict \<Rightarrow> (string, 'a pyfunction) dict" where
  "hook_loop [] decorated hooks = hooks"
| "hook_loop (hook_name # hook_names) decorated hooks =
     hook_loop hook_names decorated (register hook_name decorated hooks)"

text \<open>
  \<open>hook(*hook_names)(decorated)\<close>: the \<open>for\<close> loop has no \<open>break\<close>, so its \<open>else\<close> branch
  runs after it.
\<close>

definition hook :: "string list \<Rightarrow> 'a pyfunction \<Rightarrow> (string, 'a pyfunction) dict \<Rightarrow> (string, 'a pyfunction) dict" where
  "hook hook_names decorated hooks =
     (let hooks1 = hook_loop hook_names decorated hooks;
          hooks2 = register (func_name decorated) decorated hooks1
      in if CHR ''_'' \<in> set (func_name decorated)
         then register (replace_char CHR ''_'' CHR ''-'' (func_name decorated)) decorated hooks2
         else hooks2)"

section \<open>The fragments of a run command, provider by provider\<close>

text \<open>
  What each provider contributes, without the loops' accumulators and without the record
  of actions: \<open>d\<close> is the charm directory.
\<close>

definition volume_fragments :: "string \<Rightarrow> docker_volumes \<Rightarrow> string list" where
  "volume_fragments d v =
     concat (map (\<lambda>x. [''-v'', x]) (volumes v))
     @ concat (map (\<lambda>(n, x). [''-v'', x, ''--name'', n]) (named_volumes v))
     @ concat (map (\<lambda>(h, x). [''-v'', path_join d h @ '':'' @ x]) (mapped_volumes v))"

definition port_fragments :: "(int, int) dict \<Rightarrow> string list" where
  "port_fragments m = concat (map (\<lambda>(src, dst). [''-p'', port_pair src dst]) m)"

fun fragment :: "string \<Rightarrow> provider \<Rightarrow> error + string list" where
  "fragment d (PortMappings m) = Inr (port_fragments m)"
| "fragment d (Volumes v) = Inr (volume_fragments d v)"
| "fragment d (ContainerArgs a) = Inr a"
| "fragment d (Relation mp name self) = DockerRelation_build_args mp name self"
| "fragment d OtherProvider = Inl AttributeError"

text \<open>
  The fragments of all providers of one class in a \<open>required_data\<close> list, in the order of
  the list; the first provider that raises decides the exception.
\<close>

fun fragments :: "string \<Rightarrow> arg_type \<Rightarrow> provider list \<Rightarrow> error + string list" where
  "fragments d t [] = Inr []"
| "fragments d t (p # ps) =
     (if isinstance p t
      then (case fragment d p of
              Inl e \<Rightarrow> Inl e
            | Inr a \<Rightarrow> (case fragments d t ps of Inl e \<Rightarrow> Inl e | Inr r \<Rightarrow> Inr (a @ r)))
      else fragments d t ps)"

definition is_mkdir :: "action \<Rightarrow> bool" where
  "is_mkdir a = (case a of Mkdir _ \<Rightarrow> True | _ \<Rightarrow> False)"

text \<open>
  The service of common.py with one peer collected (the port mapping is given by its items
  in iteration order), and a world in which a container is tracked.
\<close>

definition rethinkdb_required_data :: "provider list" where
  "rethinkdb_required_data =
     [PortMappings [(80, 8080), (28015, 28015), (29015, 29015)],
      Volumes \<lparr> volumes = [], named_volumes = [], mapped_volumes = [(''data'', ''/rethinkdb'')] \<rparr>,
      ContainerArgs [''rethinkdb'', ''--bind'', ''all''],
      Relation (ClusterPeers_map 29015) ''intracluster''
        [(''intracluster'', [[(''private-address'', ''10.0.0.10'')]])]]"

definition rethinkdb_manager :: "string \<Rightarrow> provider list option" where
  "rethinkdb_manager = [''dockerfile/rethinkdb'' \<mapsto> rethinkdb_required_data]"

definition tracked_world :: world where
  "tracked_world =
     \<lparr> environ_CHARM_DIR = Some ''/charm'',
       files = [''/charm/CONTAINER_ID'' \<mapsto> ''4f2a''],
       issued = [] \<rparr>"

section \<open>The order in which a Python 2 \<open>dict\<close> with integer keys iterates\<close>

text \<open>
  \<open>DockerPortMappings\<close> is a \<open>dict\<close> and \<open>build_args\<close> follows \<open>iteritems()\<close>. The hooks run
  on Python 2 only, where a \<open>dict\<close> is an open-addressing hash table (CPython 2.7,
  \<open>Objects/dictobject.c\<close>) and iteration goes through the slots of the table by index.
  The model covers what the charm does with a port mapping: a \<open>dict\<close> display with integer
  keys, the constructor call on it, and iteration. Nothing is deleted, so every used slot
  is active (\<open>ma_fill = ma_used\<close>). Keys are Python 2 \<open>int\<close>s (C \<open>long\<close>, 64 bits), whose
  hash is the integer itself, except that \<open>-1\<close> hashes to \<open>-2\<close>.
\<close>

record 'v pydict =
  ma_mask :: nat
  ma_table :: "(int \<times> 'v) option list"

definition ma_used :: "'v pydict \<Rightarrow> nat" where
  "ma_used mp = length (filter (\<lambda>ep. ep \<noteq> None) (ma_table mp))"

definition PyDict_New :: "'v pydict" where
  "PyDict_New = \<lparr> ma_mask = 7, ma_table = replicate 8 None \<rparr>"

definition int_hash :: "int \<Rightarrow> int" where
  "int_hash x = (if x = - 1 then - 2 else x)"

text \<open>The conversion \<open>(size_t)hash\<close>.\<close>

definition size_t :: "int \<Rightarrow> nat" where
  "size_t x = nat (x mod 2 ^ 64)"

text \<open>
  The probe loop of \<open>lookdict\<close>: \<open>i = (i << 2) + i + perturb + 1\<close> in \<open>size_t\<close> arithmetic,
  slot \<open>i & mask\<close>, then \<open>perturb >>= 5\<close>. It ends at an empty slot or at the slot of the
  key; on a table without empty slot it would not end.
\<close>

partial_function (option) lookdict_probe ::
  "(int \<times> 'v) option list \<Rightarrow> nat \<Rightarrow> int \<Rightarrow> nat \<Rightarrow> nat \<Rightarrow> nat option"
where
  "lookdict_probe table msk key i perturb =
     (let i' = (i * 4 + i + perturb + 1) mod 2 ^ 64
      in case table ! (i' mod (msk + 1)) of
           None \<Rightarrow> Some (i' mod (msk + 1))
         | Some ep \<Rightarrow>
             if fst ep = key then Some (i' mod (msk + 1))
             else lookdict_probe table msk key i' (perturb div 2 ^ 5))"

definition lookdict :: "'v pydict \<Rightarrow> int \<Rightarrow> nat option" where
  "lookdict mp key =
     (let i = size_t (int_hash key) mod (ma_mask mp + 1)
      in case ma_table mp ! i of
           None \<Rightarrow> Some i
         | Some ep \<Rightarrow>
             if fst ep = key then Some i
             else lookdict_probe (ma_table mp) (ma_mask mp) key i (size_t (int_hash key)))"

definition insertdict :: "'v pydict \<Rightarrow> int \<Rightarrow> 'v \<Rightarrow> 'v pydict option" where
  "insertdict mp key v =
     (case lookdict mp key of
        None \<Rightarrow> None
      | Some ep \<Rightarrow> Some (mp\<lparr>ma_table := (ma_table mp)[ep := Some (key, v)]\<rparr>))"

text \<open>\<open>insertdict_clean\<close>, used when a table is rebuilt: the first empty slot of the probe sequence.\<close>

partial_function (option) insertdict_clean_probe ::
  "(int \<times> 'v) option list \<Rightarrow> nat \<Rightarrow> nat \<Rightarrow> nat \<Rightarrow> nat option"
where
  "insertdict_clean_probe table msk i perturb =
     (case table ! (i mod (msk + 1)) of
        None \<Rightarrow> Some (i mod (msk + 1))
      | Some ep \<Rightarrow>
          insertdict_clean_probe table msk ((i * 4 + i + perturb + 1) mod 2 ^ 64) (perturb div 2 ^ 5))"

definition insertdict_clean :: "'v pydict \<Rightarrow> int \<Rightarrow> 'v \<Rightarrow> 'v pydict option" where
  "insertdict_clean mp key v =
     (case insertdict_clean_probe (ma_table mp) (ma_mask mp)
             (size_t (int_hash key) mod (ma_mask mp + 1)) (size_t (int_hash key)) of
        None \<Rightarrow> None
      | Some ep \<Rightarrow> Some (mp\<lparr>ma_table := (ma_table mp)[ep := Some (key, v)]\<rparr>))"

text \<open>
  \<open>dictresize\<close>: the new size is the smallest power of two above \<open>minused\<close>, at least 8; the
  active entries are inserted into the new table in the order of the old slots. A table
  of 8 slots that stays at 8 slots is left alone.
\<close>

function newsize_loop :: "nat \<Rightarrow> nat \<Rightarrow> nat" where
  "newsize_loop newsize minused =
     (if newsize \<le> minused \<and> newsize > 0 then newsize_loop (newsize * 2) minused else newsize)"
  by pat_completeness auto
termination
  by (relation "measure (\<lambda>(newsize, minused). Suc minused - newsize)") auto

declare newsize_loop.simps [simp del]

fun copy_entries :: "(int \<times> 'v) option list \<Rightarrow> 'v pydict \<Rightarrow> 'v pydict option" where
  "copy_entries [] mp = Some mp"
| "copy_entries (None # eps) mp = copy_entries eps mp"
| "copy_entries (Some ep # eps) mp =
     (case insertdict_clean mp (fst ep) (snd ep) of
        None \<Rightarrow> None
      | Some mp' \<Rightarrow> copy_entries eps mp')"

definition dictresize :: "'v pydict \<Rightarrow> nat \<Rightarrow> 'v pydict option" where
  "dictresize mp minused =
     (let newsize = newsize_loop 8 minused
      in if newsize = 8 \<and> ma_mask mp = 7 then Some mp
         else copy_entries (ma_table mp)
                \<lparr> ma_mask = newsize - 1, ma_table = replicate newsize None \<rparr>)"

text \<open>\<open>PyDict_SetItem\<close>: insert, then grow when a key was added and the table is two thirds full.\<close>

definition PyDict_SetItem :: "'v pydict \<Rightarrow> int \<Rightarrow> 'v \<Rightarrow> 'v pydict option" where
  "PyDict_SetItem mp key v =
     (case insertdict mp key v of
        None \<Rightarrow> None
      | Some mp' \<Rightarrow>
          if ma_used mp' > ma_used mp \<and> ma_used mp' * 3 \<ge> (ma_mask mp' + 1) * 2
          then dictresize mp' ((if ma_used mp' > 50000 then 2 else 4) * ma_used mp')
          else Some mp')"

text \<open>
  A \<open>dict\<close> display \<open>{k1: v1, k2: v2, ...}\<close>: a new \<open>dict\<close>, presized when there are more than
  five items, then one \<open>PyDict_SetItem\<close> per item in the order written.
\<close>

fun store_items :: "(int \<times> 'v) list \<Rightarrow> 'v pydict \<Rightarrow> 'v pydict option" where
  "store_items [] mp = Some mp"
| "store_items ((k, v) # items) mp =
     (case PyDict_SetItem mp k v of None \<Rightarrow> None | Some mp' \<Rightarrow> store_items items mp')"

definition dict_display :: "(int \<times> 'v) list \<Rightarrow> 'v pydict option" where
  "dict_display items =
     (case (if length items > 5 then dictresize PyDict_New (length items) else Some PyDict_New) of
        None \<Rightarrow> None
      | Some mp \<Rightarrow> store_items items mp)"

text \<open>
  \<open>PyDict_Merge(a, b, 1)\<close> for a \<open>dict\<close> \<open>b\<close>: one resize at the start when needed, then the
  active entries of \<open>b\<close> are inserted in the order of its slots.
\<close>

fun merge_entries :: "(int \<times> 'v) option list \<Rightarrow> 'v pydict \<Rightarrow> 'v pydict option" where
  "merge_entries [] mp = Some mp"
| "merge_entries (None # eps) mp = merge_entries eps mp"
| "merge_entries (Some ep # eps) mp =
     (case insertdict mp (fst ep) (snd ep) of
        None \<Rightarrow> None
      | Some mp' \<Rightarrow> merge_entries eps mp')"

definition PyDict_Merge :: "'v pydict \<Rightarrow> 'v pydict \<Rightarrow> 'v pydict option" where
  "PyDict_Merge a b =
     (if ma_used b = 0 then Some a
      else (case (if (ma_used a + ma_used b) * 3 \<ge> (ma_mask a + 1) * 2
                  then dictresize a ((ma_used a + ma_used b) * 2) else Some a) of
              None \<Rightarrow> None
            | Some a' \<Rightarrow> merge_entries (ma_table b) a'))"

text \<open>
  \<open>DockerPortMappings(d)\<close>: the inherited \<open>dict\<close> constructor merges \<open>d\<close> into a new \<open>dict\<close>.
  \<open>iteritems\<close>: the active entries in the order of the slots.
\<close>

definition DockerPortMappings_init :: "int pydict \<Rightarrow> int pydict option" where
  "DockerPortMappings_init d = PyDict_Merge PyDict_New d"

definition iteritems :: "'v pydict \<Rightarrow> (int, 'v) dict" where
  "iteritems mp = concat (map (\<lambda>ep. case ep of None \<Rightarrow> [] | Some e \<Rightarrow> [e]) (ma_table mp))"

text \<open>
  The provider as the charm builds it: \<open>DockerPortMappings({k1: v1, ...}).build_args()\<close>;
  \<open>None\<close> stands for a probe loop that does not end.
\<close>

definition port_mapping_args :: "(int \<times> int) list \<Rightarrow> string list option" where
  "port_mapping_args pairs =
     (case dict_display pairs of
        None \<Rightarrow> None
      | Some d \<Rightarrow>
          (case DockerPortMappings_init d of
             None \<Rightarrow> None
           | Some self \<Rightarrow> Some (DockerPortMappings_build_args (iteritems self))))"

section \<open>Evaluation of decimal numerals\<close>

lemma str_nat_lt10: "n < 10 \<Longrightarrow> str_nat n = [digit_char n]"
  by (simp add: str_nat.simps)

lemma str_nat_ge10: "10 \<le> n \<Longrightarrow> str_nat n = str_nat (n div 10) @ [digit_char (n mod 10)]"
  by (subst str_nat.simps) simp

lemmas str_eval = str_int_def str_nat_ge10 str_nat_lt10 digit_char_def

lemma str_29015: "str_int 29015 = ''29015''"
  by (simp add: str_eval)

section \<open>Peer-join composition\<close>

lemma cli_peers_loop_acc:
  "cli_peers_loop peers port acc = acc @ join_pairs peers port"
  by (induction peers arbitrary: acc) (simp_all add: join_pairs_def)

lemma length_join_pairs: "length (join_pairs hosts port) = 2 * length hosts"
  by (induction hosts) (simp_all add: join_pairs_def)

lemma relation_build_args_acc:
  "map (\<lambda>u. map_of u ''private-address'') units = map Some hosts \<Longrightarrow>
   relation_build_args (ClusterPeers_map port) units acc = Inr (acc @ join_pairs hosts port)"
proof (induction units arbitrary: acc hosts)
  case Nil
  then show ?case by (simp add: join_pairs_def)
next
  case (Cons u us)
  then obtain h hs where hs: "hosts = h # hs" by (cases hosts) auto
  with Cons.prems have u: "map_of u ''private-address'' = Some h"
    and rest: "map (\<lambda>u. map_of u ''private-address'') us = map Some hs"
    by simp_all
  show ?case
    using Cons.IH [OF rest] u by (simp add: ClusterPeers_map_def hs join_pairs_def)
qed

text \<open>
  C4. For every peer list of length \<open>N\<close> and every port, the tokens that \<open>cli_peers\<close> joins
  are exactly the \<open>N\<close> pairs \<open>--join host:port\<close> in the order of the peers (so there are
  \<open>2 * N\<close> tokens) and the output is these tokens separated by single spaces; the empty
  list gives the empty string; the peers \<open>10.0.0.10\<close>, \<open>10.0.0.11\<close> with port \<open>29015\<close> give
  \<open>--join 10.0.0.10:29015 --join 10.0.0.11:29015\<close>; and \<open>ClusterPeers\<close> composes, for
  collected units whose private addresses are \<open>hosts\<close>, the same pairs in collection order.
\<close>

theorem peer_join_composition:
  "cli_peers gp (Some peers) port = str_join '' '' (join_pairs peers port)
   \<and> cli_peers_loop peers port [] = join_pairs peers port
   \<and> length (cli_peers_loop peers port []) = 2 * length peers
   \<and> cli_peers gp (Some []) port = ''''
   \<and> cli_peers [] None port = ''''
   \<and> cli_peers gp (Some [''10.0.0.10'', ''10.0.0.11'']) 29015
       = ''--join 10.0.0.10:29015 --join 10.0.0.11:29015''
   \<and> cli_peers [''10.0.0.10'', ''10.0.0.11''] None 29015
       = ''--join 10.0.0.10:29015 --join 10.0.0.11:29015''
   \<and> (map (\<lambda>u. map_of u ''private-address'') units = map Some hosts \<longrightarrow>
        ClusterPeers_build_args port units = Inr (join_pairs hosts port))"
proof -
  have loop: "cli_peers_loop peers port [] = join_pairs peers port"
    by (simp add: cli_peers_loop_acc)
  have c1: "cli_peers gp (Some peers) port = str_join '' '' (join_pairs peers port)"
    by (simp add: cli_peers_def loop)
  have c3: "length (cli_peers_loop peers port []) = 2 * length peers"
    by (simp add: loop length_join_pairs)
  have c4: "cli_peers gp (Some []) port = ''''" and c5: "cli_peers [] None port = ''''"
    by (simp_all add: cli_peers_def)
  have ex: "str_join '' '' (cli_peers_loop [''10.0.0.10'', ''10.0.0.11''] 29015 [])
            = ''--join 10.0.0.10:29015 --join 10.0.0.11:29015''"
    by (simp add: host_port_def str_29015)
  have c6: "cli_peers gp (Some [''10.0.0.10'', ''10.0.0.11'']) 29015
            = ''--join 10.0.0.10:29015 --join 10.0.0.11:29015''"
    unfolding cli_peers_def Let_def option.case by (rule ex)
  have c7: "cli_peers [''10.0.0.10'', ''10.0.0.11''] None 29015
            = ''--join 10.0.0.10:29015 --join 10.0.0.11:29015''"
    unfolding cli_peers_def Let_def option.case by (rule ex)
  have c8: "map (\<lambda>u. map_of u ''private-address'') units = map Some hosts \<longrightarrow>
            ClusterPeers_build_args port units = Inr (join_pairs hosts port)"
    unfolding ClusterPeers_build_args_def using relation_build_args_acc [of units hosts port "[]"]
    by simp
  from c1 loop c3 c4 c5 c6 c7 c8 show ?thesis by blast
qed

theorem peer_join_composition_witness:
  "map (\<lambda>u. map_of u ''private-address'')
       [[(''private-address'', ''10.0.0.10''), (''hostname'', ''a'')],
        [(''private-address'', ''10.0.0.11'')]]
     = map Some [''10.0.0.10'', ''10.0.0.11'']
   \<and> ClusterPeers_build_args 29015
       [[(''private-address'', ''10.0.0.10''), (''hostname'', ''a'')],
        [(''private-address'', ''10.0.0.11'')]]
     = Inr [''--join'', ''10.0.0.10:29015'', ''--join'', ''10.0.0.11:29015'']
   \<and> cli_peers [] (Some [''a'', ''b'', ''c'']) 80 = ''--join a:80 --join b:80 --join c:80''"
  using peer_join_composition [of "[]" "[''a'', ''b'', ''c'']" 80
      "[[(''private-address'', ''10.0.0.10''), (''hostname'', ''a'')],
        [(''private-address'', ''10.0.0.11'')]]"
      "[''10.0.0.10'', ''10.0.0.11'']"]
    peer_join_composition [of "[]" "[]" 29015
      "[[(''private-address'', ''10.0.0.10''), (''hostname'', ''a'')],
        [(''private-address'', ''10.0.0.11'')]]"
      "[''10.0.0.10'', ''10.0.0.11'']"]
  by (simp add: join_pairs_def host_port_def str_eval)

section \<open>Hook registration, volume construction and the persistent configuration\<close>

lemma map_of_hook_loop:
  "map_of (hook_loop names d hs) n = (if n \<in> set names then Some d else map_of hs n)"
  by (induction names arbitrary: hs) (auto simp: register_def update_conv')

text \<open>
  C8. A function decorated through \<open>hook(names...)\<close> is registered under every name in
  \<open>names\<close>, and also, whether or not names were given, under its own \<open>__name__\<close>, and
  under the hyphenated form of that name when it contains an underscore; every other
  entry of the registry is left as it was.
\<close>

theorem hook_registers_names_and_own_name:
  "map_of (hook hook_names decorated hooks) n =
     (if n \<in> set hook_names
         \<or> n = func_name decorated
         \<or> (CHR ''_'' \<in> set (func_name decorated)
            \<and> n = replace_char CHR ''_'' CHR ''-'' (func_name decorated))
      then Some decorated else map_of hooks n)"
  by (auto simp: hook_def Let_def register_def update_conv' map_of_hook_loop)

theorem hook_registers_names_and_own_name_witness:
  "map_of (hook [''config-changed''] \<lparr>func_name = ''on_config'', func_code = (1::nat)\<rparr> []) ''config-changed''
     = Some \<lparr>func_name = ''on_config'', func_code = 1\<rparr>
   \<and> map_of (hook [''config-changed''] \<lparr>func_name = ''on_config'', func_code = (1::nat)\<rparr> []) ''on_config''
     = Some \<lparr>func_name = ''on_config'', func_code = 1\<rparr>
   \<and> map_of (hook [''config-changed''] \<lparr>func_name = ''on_config'', func_code = (1::nat)\<rparr> []) ''on-config''
     = Some \<lparr>func_name = ''on_config'', func_code = 1\<rparr>
   \<and> map_of (hook [''config-changed''] \<lparr>func_name = ''on_config'', func_code = (1::nat)\<rparr> []) ''install''
     = None"
  using hook_registers_names_and_own_name
          [of "[''config-changed'']" "\<lparr>func_name = ''on_config'', func_code = (1::nat)\<rparr>" "[]" "''config-changed''"]
        hook_registers_names_and_own_name
          [of "[''config-changed'']" "\<lparr>func_name = ''on_config'', func_code = (1::nat)\<rparr>" "[]" "''on_config''"]
        hook_registers_names_and_own_name
          [of "[''config-changed'']" "\<lparr>func_name = ''on_config'', func_code = (1::nat)\<rparr>" "[]" "''on-config''"]
        hook_registers_names_and_own_name
          [of "[''config-changed'']" "\<lparr>func_name = ''on_config'', func_code = (1::nat)\<rparr>" "[]" "''install''"]
  by (simp add: replace_char_def)

text \<open>
  C9. Constructing \<open>DockerVolumes\<close> with \<open>volumes\<close>, \<open>named_volumes\<close> and
  \<open>mapped_volumes\<close> all absent or empty raises \<open>AssertionError\<close>; when at least one is
  non-empty the construction succeeds, keeps what was supplied and gives the empty
  collection for every kind that was not.
\<close>

theorem DockerVolumes_init_requires_one:
  "(\<not> truthy vols \<and> \<not> truthy named \<and> \<not> truthy mapped \<longrightarrow>
      DockerVolumes_init vols named mapped = Inl AssertionError)
   \<and> (truthy vols \<or> truthy named \<or> truthy mapped \<longrightarrow>
      DockerVolumes_init vols named mapped =
        Inr \<lparr> volumes = (case vols of None \<Rightarrow> [] | Some x \<Rightarrow> x),
              named_volumes = (case named of None \<Rightarrow> [] | Some x \<Rightarrow> x),
              mapped_volumes = (case mapped of None \<Rightarrow> [] | Some x \<Rightarrow> x) \<rparr>)"
  by (auto simp: DockerVolumes_init_def or_empty_def truthy_def split: option.splits)

theorem DockerVolumes_init_requires_one_witness:
  "\<not> truthy (None :: string list option) \<and> \<not> truthy (Some ([] :: (string \<times> string) list))
   \<and> DockerVolumes_init None (Some []) None = Inl AssertionError
   \<and> truthy (Some [(''data'', ''/rethinkdb'')])
   \<and> DockerVolumes_init None None (Some [(''data'', ''/rethinkdb'')])
       = Inr \<lparr> volumes = [], named_volumes = [], mapped_volumes = [(''data'', ''/rethinkdb'')] \<rparr>"
  using DockerVolumes_init_requires_one [of None "Some []" None]
        DockerVolumes_init_requires_one [of None None "Some [(''data'', ''/rethinkdb'')]"]
  by (simp add: truthy_def)

text \<open>
  C10. Once a previous snapshot has been loaded, \<open>changed(key)\<close> is \<open>False\<close> for every
  key that is in neither the current mapping nor the snapshot: both lookups give \<open>None\<close>.
\<close>

theorem changed_false_when_absent_from_both:
  "prev_dict self = Some p \<Longrightarrow> map_of p key = None \<Longrightarrow> map_of (current self) key = None \<Longrightarrow>
   previous self key = PNone \<and> dict_get (current self) key = PNone \<and> \<not> changed self key"
  by (simp add: changed_def previous_def dict_get_def)

theorem changed_false_when_absent_from_both_witness:
  "prev_dict \<lparr>current = [(''foo'', PStr ''baz'')], prev_dict = Some [(''foo'', PStr ''bar'')], path = ''p''\<rparr>
     = Some [(''foo'', PStr ''bar'')]
   \<and> map_of [(''foo'', PStr ''bar'')] ''mykey'' = None
   \<and> map_of (current \<lparr>current = [(''foo'', PStr ''baz'')], prev_dict = Some [(''foo'', PStr ''bar'')], path = ''p''\<rparr>) ''mykey'' = None
   \<and> \<not> changed \<lparr>current = [(''foo'', PStr ''baz'')], prev_dict = Some [(''foo'', PStr ''bar'')], path = ''p''\<rparr> ''mykey''"
  using changed_false_when_absent_from_both
    [of "\<lparr>current = [(''foo'', PStr ''baz'')], prev_dict = Some [(''foo'', PStr ''bar'')], path = ''p''\<rparr>"
        "[(''foo'', PStr ''bar'')]" "''mykey''"]
  by simp

lemma map_of_save_loop:
  "map_of (save_loop items self) k = (case map_of self k of Some v \<Rightarrow> Some v | None \<Rightarrow> map_of items k)"
  by (induction items arbitrary: self) (auto simp: update_conv' split: option.splits)


lemma map_of_saved:
  "map_of (current (fst (save self dsk))) k =
     (case map_of (current self) k of
        Some v \<Rightarrow> Some v
      | None \<Rightarrow> (case prev_dict self of None \<Rightarrow> None | Some p \<Rightarrow> map_of p k))"
  by (cases "prev_dict self")
     (auto simp: save_def truthy_def Let_def map_of_save_loop split: option.splits)

text \<open>
  C3. \<open>save\<close> writes the current mapping after putting back every key of the previous
  snapshot that the current mapping lacks, with the snapshot's value; keys the current
  mapping has keep their current value. So every key of the previous snapshot is a key of
  what is written, and the next invocation, which loads the file at the same path, finds
  all of them in its snapshot.
\<close>

theorem save_merges_forward:
  "save self dsk = (self', dsk') \<Longrightarrow>
   dsk' (path self) = Some (current self')
   \<and> map_of (current self') k =
       (case map_of (current self) k of
          Some v \<Rightarrow> Some v
        | None \<Rightarrow> (case prev_dict self of None \<Rightarrow> None | Some p \<Rightarrow> map_of p k))
   \<and> (\<forall>p. prev_dict self = Some p \<longrightarrow> fst ` set p \<subseteq> fst ` set (current self'))
   \<and> (path self = path_join charm_dir ''.juju-persistent-config'' \<longrightarrow>
        prev_dict (Config_init dsk' charm_dir data) = Some (current self'))"
proof -
  assume sv: "save self dsk = (self', dsk')"
  have written: "dsk' (path self) = Some (current self')"
    using sv by (auto simp: save_def Let_def)
  have lookup: "map_of (current self') k' =
       (case map_of (current self) k' of
          Some v \<Rightarrow> Some v
        | None \<Rightarrow> (case prev_dict self of None \<Rightarrow> None | Some p \<Rightarrow> map_of p k'))" for k'
    using map_of_saved [of self dsk k'] sv by simp
  have keys: "fst ` set p \<subseteq> fst ` set (current self')" if p: "prev_dict self = Some p" for p
  proof
    fix x assume "x \<in> fst ` set p"
    then have "map_of p x \<noteq> None" by (simp add: map_of_eq_None_iff)
    with lookup [of x] p have "map_of (current self') x \<noteq> None"
      by (auto split: option.splits)
    then show "x \<in> fst ` set (current self')" by (simp add: map_of_eq_None_iff)
  qed
  have reload: "prev_dict (Config_init dsk' charm_dir data) = Some (current self')"
    if "path self = path_join charm_dir ''.juju-persistent-config''"
    using that written by (simp add: Config_init_def Let_def load_previous_def)
  from written lookup [of k] keys reload show ?thesis by blast
qed

theorem save_merges_forward_witness:
  "save \<lparr>current = [(''foo'', PStr ''baz'')],
         prev_dict = Some [(''foo'', PStr ''bar''), (''mykey'', PStr ''myval'')],
         path = ''/charm/.juju-persistent-config''\<rparr> (\<lambda>_. None)
     = (\<lparr>current = [(''foo'', PStr ''baz''), (''mykey'', PStr ''myval'')],
         prev_dict = Some [(''foo'', PStr ''bar''), (''mykey'', PStr ''myval'')],
         path = ''/charm/.juju-persistent-config''\<rparr>,
        (\<lambda>_. None)(''/charm/.juju-persistent-config''
                      := Some [(''foo'', PStr ''baz''), (''mykey'', PStr ''myval'')]))
   \<and> prev_dict (Config_init
        ((\<lambda>_. None)(''/charm/.juju-persistent-config''
                      := Some [(''foo'', PStr ''baz''), (''mykey'', PStr ''myval'')]))
        ''/charm'' [(''foo'', PStr ''baz'')])
     = Some [(''foo'', PStr ''baz''), (''mykey'', PStr ''myval'')]
   \<and> fst ` set [(''foo'', PStr ''bar''), (''mykey'', PStr ''myval'')]
       \<subseteq> fst ` set [(''foo'', PStr ''baz''), (''mykey'', PStr ''myval'')]"
proof -
  have sv: "save \<lparr>current = [(''foo'', PStr ''baz'')],
         prev_dict = Some [(''foo'', PStr ''bar''), (''mykey'', PStr ''myval'')],
         path = ''/charm/.juju-persistent-config''\<rparr> (\<lambda>_. None)
     = (\<lparr>current = [(''foo'', PStr ''baz''), (''mykey'', PStr ''myval'')],
         prev_dict = Some [(''foo'', PStr ''bar''), (''mykey'', PStr ''myval'')],
         path = ''/charm/.juju-persistent-config''\<rparr>,
        (\<lambda>_. None)(''/charm/.juju-persistent-config''
                      := Some [(''foo'', PStr ''baz''), (''mykey'', PStr ''myval'')]))"
    by (simp add: save_def truthy_def Let_def)
  have pj: "''/charm/.juju-persistent-config'' = path_join ''/charm'' ''.juju-persistent-config''"
    by (simp add: path_join_def isabs_def)
  show ?thesis
    using save_merges_forward [OF sv, of "''mykey''" "''/charm''" "[(''foo'', PStr ''baz'')]"] sv pj
    by simp
qed

section \<open>The checksum guard\<close>

lemma set_first_seen: "set (first_seen xs) = set xs"
  by (induction xs) auto

lemma distinct_first_seen: "distinct (first_seen xs)"
  by (induction xs) (auto simp: distinct_removeAll)

lemma fromkeys_loop_acc:
  "fromkeys_loop xs acc = acc @ filter (\<lambda>x. x \<notin> set acc) (first_seen xs)"
proof (induction xs arbitrary: acc)
  case Nil
  then show ?case by simp
next
  case (Cons x xs)
  have f: "filter (\<lambda>y. y \<noteq> x \<and> y \<notin> set acc) ys = filter (\<lambda>y. y \<notin> set acc) (removeAll x ys)" for ys
    by (induction ys) auto
  show ?case
  proof (cases "x \<in> set acc")
    case True
    then have "filter (\<lambda>y. y \<notin> set acc) (removeAll x ys) = filter (\<lambda>y. y \<notin> set acc) ys" for ys
      by (induction ys) auto
    with True Cons.IH [of acc] show ?thesis by simp
  next
    case False
    with Cons.IH [of "acc @ [x]"] f [of "first_seen xs"] show ?thesis by simp
  qed
qed

lemma OrderedDict_fromkeys_first_seen: "OrderedDict_fromkeys xs = first_seen xs"
  by (simp add: OrderedDict_fromkeys_def fromkeys_loop_acc)

lemma map_of_checksums_loop:
  "map_of (checksums_loop md5 fs paths cs) p =
     (if p \<in> set paths then Some (file_hash md5 fs p) else map_of cs p)"
  by (induction paths arbitrary: cs) (auto simp: update_conv')

lemma restarts_loop_acc:
  "(\<And>p s. (p, s) \<in> set items \<Longrightarrow>
        map_of cs p = Some (file_hash md5 fs p) \<and> map_of rm p = Some s) \<Longrightarrow>
   restarts_loop md5 fs' rm cs (map fst items) acc
     = Inr (acc @ concat (map snd (changed_paths md5 items fs fs')))"
proof (induction items arbitrary: acc)
  case Nil
  then show ?case by (simp add: changed_paths_def)
next
  case (Cons it items)
  obtain p s where it: "it = (p, s)" by (cases it)
  have here: "map_of cs p = Some (file_hash md5 fs p)" "map_of rm p = Some s"
    using Cons.prems [of p s] it by simp_all
  have rest: "restarts_loop md5 fs' rm cs (map fst items) acc'
     = Inr (acc' @ concat (map snd (changed_paths md5 items fs fs')))" for acc'
    by (rule Cons.IH) (use Cons.prems in auto)
  show ?case
    using here rest by (simp add: it changed_paths_def)
qed

lemma restart_map_restarts:
  assumes d: "distinct (map fst restart_map)"
  shows "restarts_loop md5 fs' restart_map (checksums_loop md5 fs (map fst restart_map) [])
           (map fst restart_map) []
         = Inr (concat (map snd (changed_paths md5 restart_map fs fs')))"
proof -
  have "map_of (checksums_loop md5 fs (map fst restart_map) []) p = Some (file_hash md5 fs p)
        \<and> map_of restart_map p = Some s" if "(p, s) \<in> set restart_map" for p s
    using that d by (force simp: map_of_checksums_loop)
  from restarts_loop_acc [of restart_map _ md5 fs restart_map fs' "[]", OF this]
  show ?thesis by simp
qed


lemma set_restart_targets:
  "set (restart_targets md5 restart_map fs fs') =
     {s. \<exists>p svcs. (p, svcs) \<in> set restart_map
                  \<and> file_hash md5 fs p \<noteq> file_hash md5 fs' p \<and> s \<in> set svcs}"
  by (auto simp: restart_targets_def set_first_seen changed_paths_def) blast

text \<open>
  C5. When the watched map has distinct paths and the guarded operation returns, the
  service commands issued are exactly one per service mapped to a path whose hash differs
  between the two snapshots, each service once, in first-seen order: \<open>restart\<close> for each,
  or, in stop/start mode, \<open>stop\<close> for all and then \<open>start\<close> for all. A service all of whose
  paths have the same hash before and after gets no command. When the guarded operation
  raises, the exception propagates.
\<close>

theorem restart_on_change_restarts_changed:
  assumes "distinct (map fst restart_map)"
  shows
  "(f fs = Inl e \<longrightarrow> restart_on_change md5 restart_map stopstart f fs = Inl e)
   \<and> (f fs = Inr fs' \<longrightarrow>
       restart_on_change md5 restart_map stopstart f fs
         = Inr (fs',
                if stopstart
                then map (service ''stop'') (restart_targets md5 restart_map fs fs')
                     @ map (service ''start'') (restart_targets md5 restart_map fs fs')
                else map (service ''restart'') (restart_targets md5 restart_map fs fs'))
       \<and> distinct (restart_targets md5 restart_map fs fs')
       \<and> set (restart_targets md5 restart_map fs fs')
           = {s. \<exists>p svcs. (p, svcs) \<in> set restart_map
                        \<and> file_hash md5 fs p \<noteq> file_hash md5 fs' p \<and> s \<in> set svcs}
       \<and> (\<forall>s act cmds.
             restart_on_change md5 restart_map stopstart f fs = Inr (fs', cmds)
             \<and> (\<forall>p svcs. (p, svcs) \<in> set restart_map \<and> s \<in> set svcs
                    \<longrightarrow> file_hash md5 fs p = file_hash md5 fs' p)
             \<longrightarrow> service act s \<notin> set cmds))"
proof -
  let ?L = "restart_targets md5 restart_map fs fs'"
  have raise: "restart_on_change md5 restart_map stopstart f fs = Inl e" if "f fs = Inl e"
    using that by (simp add: restart_on_change_def Let_def)
  have run: "restart_on_change md5 restart_map stopstart f fs
         = Inr (fs',
                if stopstart then map (service ''stop'') ?L @ map (service ''start'') ?L
                else map (service ''restart'') ?L)" if "f fs = Inr fs'"
    using that restart_map_restarts [OF assms, of md5 fs' fs]
    by (simp add: restart_on_change_def Let_def OrderedDict_fromkeys_first_seen
                  restart_targets_def)
  have dist: "distinct ?L"
    by (simp add: restart_targets_def distinct_first_seen)
  have never: "service act s \<notin> set cmds"
    if r: "restart_on_change md5 restart_map stopstart f fs = Inr (fs', cmds)"
      and ff: "f fs = Inr fs'"
      and un: "\<forall>p svcs. (p, svcs) \<in> set restart_map \<and> s \<in> set svcs
                    \<longrightarrow> file_hash md5 fs p = file_hash md5 fs' p"
    for s act cmds
  proof -
    from un have "s \<notin> set ?L" by (auto simp: set_restart_targets)
    moreover from r run [OF ff] have "cmds = (if stopstart
        then map (service ''stop'') ?L @ map (service ''start'') ?L
        else map (service ''restart'') ?L)" by simp
    ultimately show ?thesis by (auto simp: service_def)
  qed
  show ?thesis
    using raise run dist set_restart_targets [of md5 restart_map fs fs'] never by blast
qed

lemma watched_targets:
  "restart_targets (\<lambda>c. c) watched fs_before
     (fs_before(''/etc/b.conf'' \<mapsto> ''two'', ''/etc/a.conf'' \<mapsto> ''uno''))
   = [''api'', ''volume'', ''scheduler'']"
  by (simp add: restart_targets_def changed_paths_def watched_def fs_before_def file_hash_def)

theorem restart_on_change_restarts_changed_witness:
  "distinct (map fst watched)
   \<and> restart_on_change (\<lambda>c. c) watched False write_b_and_a fs_before
       = Inr (fs_before(''/etc/b.conf'' \<mapsto> ''two'', ''/etc/a.conf'' \<mapsto> ''uno''),
              [Call [''service'', ''api'', ''restart''],
               Call [''service'', ''volume'', ''restart''],
               Call [''service'', ''scheduler'', ''restart'']])
   \<and> restart_on_change (\<lambda>c. c) watched True write_b_and_a fs_before
       = Inr (fs_before(''/etc/b.conf'' \<mapsto> ''two'', ''/etc/a.conf'' \<mapsto> ''uno''),
              [Call [''service'', ''api'', ''stop''],
               Call [''service'', ''volume'', ''stop''],
               Call [''service'', ''scheduler'', ''stop''],
               Call [''service'', ''api'', ''start''],
               Call [''service'', ''volume'', ''start''],
               Call [''service'', ''scheduler'', ''start'']])"
proof -
  have d: "distinct (map fst watched)" by (simp add: watched_def)
  have f: "write_b_and_a fs_before
           = Inr (fs_before(''/etc/b.conf'' \<mapsto> ''two'', ''/etc/a.conf'' \<mapsto> ''uno''))"
    by (simp add: write_b_and_a_def)
  show ?thesis
    using d f
      restart_on_change_restarts_changed [OF d, of write_b_and_a fs_before _ "\<lambda>c. c" False
         "fs_before(''/etc/b.conf'' \<mapsto> ''two'', ''/etc/a.conf'' \<mapsto> ''uno'')"]
      restart_on_change_restarts_changed [OF d, of write_b_and_a fs_before _ "\<lambda>c. c" True
         "fs_before(''/etc/b.conf'' \<mapsto> ''two'', ''/etc/a.conf'' \<mapsto> ''uno'')"]
    by (simp add: watched_targets service_def)
qed

section \<open>Readiness of a relation data provider\<close>

lemma get_data_units_acc:
  "map (relation_get env rid) units = map Some ds \<Longrightarrow>
   get_data_units env req rid units ns = Inr (ns @ filter (unit_is_ready req) ds)"
proof (induction units arbitrary: ns ds)
  case Nil
  then show ?case by simp
next
  case (Cons u us)
  then obtain d ds' where ds: "ds = d # ds'" by (cases ds) auto
  with Cons.prems have u: "relation_get env rid u = Some d"
    and rest: "map (relation_get env rid) us = map Some ds'"
    by simp_all
  show ?case
    using Cons.IH [OF rest] u by (simp add: ds)
qed

lemma get_data_rids_acc:
  "concat (map (\<lambda>rid. map (relation_get env rid) (sort (related_units env rid))) rids) = map Some ds \<Longrightarrow>
   get_data_rids env req rids ns = Inr (ns @ filter (unit_is_ready req) ds)"
proof (induction rids arbitrary: ns ds)
  case Nil
  then show ?case by simp
next
  case (Cons rid rids)
  from Cons.prems obtain ds1 ds2 where ds: "ds = ds1 @ ds2"
    and one: "map (relation_get env rid) (sort (related_units env rid)) = map Some ds1"
    and rest: "concat (map (\<lambda>rid. map (relation_get env rid) (sort (related_units env rid))) rids) = map Some ds2"
    by (auto simp: append_eq_map_conv)
  show ?case
    using get_data_units_acc [OF one] Cons.IH [OF rest] by (simp add: ds)
qed

lemma queried_eval:
  "queried env_partial ''intracluster'' = [Some [(''private-address'', ''10.0.0.10'')], Some []]"
  by (simp add: queried_def env_partial_def)

text \<open>
  C1, as stated, fails: with one relation id and two units of which only
  \<open>rethinkdb/0\<close> has published \<open>private-address\<close>, the unit \<open>rethinkdb/1\<close> is queried and
  lacks the required key, and the provider is ready all the same.
\<close>

theorem is_ready_with_incomplete_unit:
  "queried env_partial ''intracluster'' = [Some [(''private-address'', ''10.0.0.10'')], Some []]
   \<and> relation_get env_partial ''intracluster:0'' ''rethinkdb/1'' = Some []
   \<and> \<not> unit_is_ready [''private-address''] []
   \<and> RelationContext env_partial ''intracluster'' [''private-address''] []
       = Inr [(''intracluster'', [[(''private-address'', ''10.0.0.10'')]])]
   \<and> is_ready [(''intracluster'', [[(''private-address'', ''10.0.0.10'')]])] ''intracluster''"
  by (simp add: queried_def RelationContext_def get_data_def env_partial_def unit_is_ready_def
                is_ready_def collected_def)

text \<open>
  C1, amended. When every queried unit answers with settings \<open>ds\<close> (in query order), the
  provider is constructed, its collected list is exactly the units of \<open>ds\<close> whose keys
  include every required key, in that order, and \<open>is_ready\<close> is true if and only if this
  list is non-empty, that is, if and only if at least one queried unit has every required
  key. Every collected unit has all required keys; a queried unit that lacks one is left
  out and does not make the provider not ready.
\<close>

theorem is_ready_iff_some_unit_complete:
  assumes "queried env name = map Some ds"
  shows "\<exists>ctx. RelationContext env name required_keys [] = Inr ctx
           \<and> collected ctx name = filter (unit_is_ready required_keys) ds
           \<and> (is_ready ctx name \<longleftrightarrow> collected ctx name \<noteq> [])
           \<and> (is_ready ctx name \<longleftrightarrow>
                collected ctx name \<noteq> [] \<and> (\<forall>u \<in> set (collected ctx name). unit_is_ready required_keys u))
           \<and> (is_ready ctx name \<longleftrightarrow> (\<exists>d \<in> set ds. unit_is_ready required_keys d))"
proof (cases "relation_ids env name = []")
  case True
  with assms have "ds = []" by (simp add: queried_def)
  with True show ?thesis
    by (simp add: RelationContext_def get_data_def collected_def is_ready_def)
next
  case False
  from assms have "get_data_rids env required_keys (sort (relation_ids env name)) []
                   = Inr (filter (unit_is_ready required_keys) ds)"
    using get_data_rids_acc [of env "sort (relation_ids env name)" ds required_keys "[]"]
    by (simp add: queried_def)
  with False have "RelationContext env name required_keys []
                   = Inr [(name, filter (unit_is_ready required_keys) ds)]"
    by (simp add: RelationContext_def get_data_def)
  then show ?thesis
    by (auto simp: collected_def is_ready_def filter_empty_conv)
qed

theorem is_ready_iff_some_unit_complete_witness:
  "queried env_partial ''intracluster'' = map Some [[(''private-address'', ''10.0.0.10'')], []]
   \<and> (\<exists>ctx. RelationContext env_partial ''intracluster'' [''private-address''] [] = Inr ctx
           \<and> collected ctx ''intracluster'' = [[(''private-address'', ''10.0.0.10'')]]
           \<and> is_ready ctx ''intracluster'')"
proof -
  have q: "queried env_partial ''intracluster'' = map Some [[(''private-address'', ''10.0.0.10'')], []]"
    by (simp add: queried_eval)
  show ?thesis
    using q is_ready_iff_some_unit_complete [OF q, of "[''private-address'']"]
    by (auto simp: unit_is_ready_def)
qed

section \<open>The container lifecycle callback\<close>

lemma do_action_alt: "do_action a w = w\<lparr>issued := issued w @ [a]\<rparr>"
  by (simp add: do_action_def)

lemma path_join_abs: "isabs h \<Longrightarrow> path_join d h = h"
  by (simp add: path_join_def)

lemma port_args_loop_acc: "port_args_loop m acc = acc @ port_fragments m"
  by (induction m arbitrary: acc) (auto simp: port_fragments_def)

lemma volumes_loop_acc: "volumes_loop vs acc = acc @ concat (map (\<lambda>x. [''-v'', x]) vs)"
  by (induction vs arbitrary: acc) auto

lemma named_volumes_loop_acc:
  "named_volumes_loop items acc = acc @ concat (map (\<lambda>(n, x). [''-v'', x, ''--name'', n]) items)"
  by (induction items arbitrary: acc) auto

lemma mapped_volumes_loop_world:
  "\<exists>ms. list_all is_mkdir ms \<and> snd (mapped_volumes_loop items args w) = w\<lparr>issued := issued w @ ms\<rparr>"
proof (induction items arbitrary: args w)
  case Nil
  have "list_all is_mkdir [] \<and> snd (mapped_volumes_loop [] args w) = w\<lparr>issued := issued w @ []\<rparr>"
    by simp
  then show ?case by blast
next
  case (Cons it items)
  obtain h x where it: "it = (h, x)" by (cases it)
  show ?case
  proof (cases "isabs h \<or> environ_CHARM_DIR w \<noteq> None")
    case False
    then have "list_all is_mkdir [] \<and>
        snd (mapped_volumes_loop (it # items) args w) = w\<lparr>issued := issued w @ []\<rparr>"
      by (simp add: it)
    then show ?thesis by blast
  next
    case True
    have "\<exists>p args'.
      mapped_volumes_loop (it # items) args w = mapped_volumes_loop items args' (do_action (Mkdir p) w)"
    proof (cases "isabs h")
      case True
      then have "mapped_volumes_loop (it # items) args w
          = mapped_volumes_loop items (args @ [''-v'', str_join '':'' [h, x]]) (do_action (Mkdir h) w)"
        by (simp add: it)
      then show ?thesis by blast
    next
      case False
      with \<open>isabs h \<or> environ_CHARM_DIR w \<noteq> None\<close> obtain d where "environ_CHARM_DIR w = Some d"
        by auto
      with False have "mapped_volumes_loop (it # items) args w
          = mapped_volumes_loop items (args @ [''-v'', str_join '':'' [path_join d h, x]])
              (do_action (Mkdir (path_join d h)) w)"
        by (simp add: it)
      then show ?thesis by blast
    qed
    then obtain p args' where step:
      "mapped_volumes_loop (it # items) args w = mapped_volumes_loop items args' (do_action (Mkdir p) w)"
      by blast
    from Cons.IH [of args' "do_action (Mkdir p) w"] obtain ms where
      ms: "list_all is_mkdir ms"
      "snd (mapped_volumes_loop items args' (do_action (Mkdir p) w))
         = (do_action (Mkdir p) w)\<lparr>issued := issued (do_action (Mkdir p) w) @ ms\<rparr>"
      by blast
    have "list_all is_mkdir (Mkdir p # ms) \<and>
        snd (mapped_volumes_loop (it # items) args w) = w\<lparr>issued := issued w @ (Mkdir p # ms)\<rparr>"
      using ms step by (simp add: do_action_alt is_mkdir_def)
    then show ?thesis by blast
  qed
qed

lemma mapped_volumes_loop_args:
  "environ_CHARM_DIR w = Some d \<Longrightarrow>
   fst (mapped_volumes_loop items args w)
     = Inr (args @ concat (map (\<lambda>(h, x). [''-v'', path_join d h @ '':'' @ x]) items))"
  by (induction items arbitrary: args w) (auto simp: do_action_alt path_join_abs)

lemma build_args_world:
  "\<exists>ms. list_all is_mkdir ms \<and> snd (build_args p w) = w\<lparr>issued := issued w @ ms\<rparr>"
proof (cases p)
  case (Volumes v)
  then show ?thesis
    using mapped_volumes_loop_world by (simp add: DockerVolumes_build_args_def)
next
  case (PortMappings m)
  then have "list_all is_mkdir [] \<and> snd (build_args p w) = w\<lparr>issued := issued w @ []\<rparr>" by simp
  then show ?thesis by blast
next
  case (ContainerArgs a)
  then have "list_all is_mkdir [] \<and> snd (build_args p w) = w\<lparr>issued := issued w @ []\<rparr>" by simp
  then show ?thesis by blast
next
  case (Relation mp name self)
  then have "list_all is_mkdir [] \<and> snd (build_args p w) = w\<lparr>issued := issued w @ []\<rparr>" by simp
  then show ?thesis by blast
next
  case OtherProvider
  then have "list_all is_mkdir [] \<and> snd (build_args p w) = w\<lparr>issued := issued w @ []\<rparr>" by simp
  then show ?thesis by blast
qed

lemma build_args_fragment:
  "environ_CHARM_DIR w = Some d \<Longrightarrow> fst (build_args p w) = fragment d p"
  by (cases p)
     (simp_all add: DockerPortMappings_build_args_def port_args_loop_acc
        DockerVolumes_build_args_def mapped_volumes_loop_args volume_fragments_def
        volumes_loop_acc named_volumes_loop_acc)

lemma get_args_loop_world:
  "\<exists>ms. list_all is_mkdir ms \<and> snd (get_args_loop t ps args w) = w\<lparr>issued := issued w @ ms\<rparr>"
proof (induction ps arbitrary: args w)
  case Nil
  have "list_all is_mkdir [] \<and> snd (get_args_loop t [] args w) = w\<lparr>issued := issued w @ []\<rparr>"
    by simp
  then show ?case by blast
next
  case (Cons p ps)
  show ?case
  proof (cases "isinstance p t")
    case False
    with Cons.IH [of args w] show ?thesis by simp
  next
    case True
    obtain r w1 where b: "build_args p w = (r, w1)" by (cases "build_args p w")
    from build_args_world [of p w] b obtain ms1 where
      ms1: "list_all is_mkdir ms1" "w1 = w\<lparr>issued := issued w @ ms1\<rparr>" by auto
    show ?thesis
    proof (cases r)
      case (Inl e)
      with True b ms1 show ?thesis by auto
    next
      case (Inr a)
      from Cons.IH [of "args @ a" w1] obtain ms2 where
        ms2: "list_all is_mkdir ms2"
        "snd (get_args_loop t ps (args @ a) w1) = w1\<lparr>issued := issued w1 @ ms2\<rparr>" by blast
      have "list_all is_mkdir (ms1 @ ms2) \<and>
          snd (get_args_loop t (p # ps) args w) = w\<lparr>issued := issued w @ (ms1 @ ms2)\<rparr>"
        using True b Inr ms1 ms2 by simp
      then show ?thesis by blast
    qed
  qed
qed

lemma get_args_loop_fragments:
  "environ_CHARM_DIR w = Some d \<Longrightarrow>
   fst (get_args_loop t ps args w)
     = (case fragments d t ps of Inl e \<Rightarrow> Inl e | Inr a \<Rightarrow> Inr (args @ a))"
proof (induction ps arbitrary: args w)
  case Nil
  then show ?case by simp
next
  case (Cons p ps)
  show ?case
  proof (cases "isinstance p t")
    case False
    with Cons show ?thesis by simp
  next
    case True
    obtain r w1 where b: "build_args p w = (r, w1)" by (cases "build_args p w")
    from build_args_world [of p w] b obtain ms1 where
      "w1 = w\<lparr>issued := issued w @ ms1\<rparr>" by auto
    with Cons.prems have e1: "environ_CHARM_DIR w1 = Some d" by simp
    from build_args_fragment [OF Cons.prems, of p] b have r: "r = fragment d p" by simp
    show ?thesis
      using True b r Cons.IH [OF e1] by (auto split: sum.splits)
  qed
qed

lemma get_args_world:
  "\<exists>ms. list_all is_mkdir ms \<and> snd (get_args manager sn t w) = w\<lparr>issued := issued w @ ms\<rparr>"
proof (cases "manager sn")
  case None
  then have "list_all is_mkdir [] \<and> snd (get_args manager sn t w) = w\<lparr>issued := issued w @ []\<rparr>"
    by (simp add: get_args_def)
  then show ?thesis by blast
next
  case (Some rd)
  then show ?thesis using get_args_loop_world [of t rd "[]" w] by (simp add: get_args_def)
qed

lemma get_args_fragments:
  "environ_CHARM_DIR w = Some d \<Longrightarrow> manager sn = Some rd \<Longrightarrow>
   fst (get_args manager sn t w) = fragments d t rd"
  using get_args_loop_fragments [of w d t rd "[]"]
  by (simp add: get_args_def split: sum.splits)


lemma new_actions_append: "issued w' = issued w @ xs \<Longrightarrow> new_actions w w' = xs"
  by (simp add: new_actions_def)

lemma run_container_world:
  "\<exists>ms tl. list_all is_mkdir ms \<and> (tl = [] \<or> (\<exists>cmd. tl = [CheckCall cmd]))
     \<and> snd (run_container exit_ok manager sn f w) = w\<lparr>issued := issued w @ ms @ tl\<rparr>"
proof -
  obtain r1 w1 where g1: "get_args manager sn DockerVolumes w = (r1, w1)"
    by (cases "get_args manager sn DockerVolumes w")
  obtain r2 w2 where g2: "get_args manager sn DockerPortMappings w1 = (r2, w2)"
    by (cases "get_args manager sn DockerPortMappings w1")
  obtain r3 w3 where g3: "get_args manager sn DockerContainerArgs w2 = (r3, w3)"
    by (cases "get_args manager sn DockerContainerArgs w2")
  from get_args_world [of manager sn DockerVolumes w] g1 obtain ms1 where
    m1: "list_all is_mkdir ms1" "w1 = w\<lparr>issued := issued w @ ms1\<rparr>" by auto
  from get_args_world [of manager sn DockerPortMappings w1] g2 obtain ms2 where
    m2: "list_all is_mkdir ms2" "w2 = w1\<lparr>issued := issued w1 @ ms2\<rparr>" by auto
  from get_args_world [of manager sn DockerContainerArgs w2] g3 obtain ms3 where
    m3: "list_all is_mkdir ms3" "w3 = w2\<lparr>issued := issued w2 @ ms3\<rparr>" by auto
  have w2: "w2 = w\<lparr>issued := issued w @ (ms1 @ ms2)\<rparr>" using m1 m2 by simp
  have w3: "w3 = w\<lparr>issued := issued w @ (ms1 @ ms2 @ ms3)\<rparr>" using w2 m3 by simp
  show ?thesis
  proof (cases r1)
    case (Inl e)
    then have "list_all is_mkdir ms1 \<and> ([] = [] \<or> (\<exists>cmd. [] = [CheckCall cmd]))
      \<and> snd (run_container exit_ok manager sn f w) = w\<lparr>issued := issued w @ ms1 @ []\<rparr>"
      using g1 m1 by (simp add: run_container_def)
    then show ?thesis by blast
  next
    case a1: (Inr a1)
    show ?thesis
    proof (cases r2)
      case (Inl e)
      then have "list_all is_mkdir (ms1 @ ms2) \<and> ([] = [] \<or> (\<exists>cmd. [] = [CheckCall cmd]))
        \<and> snd (run_container exit_ok manager sn f w) = w\<lparr>issued := issued w @ (ms1 @ ms2) @ []\<rparr>"
        using g1 g2 a1 m1 m2 w2 by (simp add: run_container_def)
      then show ?thesis by blast
    next
      case a2: (Inr a2)
      show ?thesis
      proof (cases r3)
        case (Inl e)
        then have "list_all is_mkdir (ms1 @ ms2 @ ms3) \<and> ([] = [] \<or> (\<exists>cmd. [] = [CheckCall cmd]))
          \<and> snd (run_container exit_ok manager sn f w)
              = w\<lparr>issued := issued w @ (ms1 @ ms2 @ ms3) @ []\<rparr>"
          using g1 g2 g3 a1 a2 m1 m2 m3 w3 by (simp add: run_container_def)
        then show ?thesis by blast
      next
        case a3: (Inr a3)
        let ?cmd = "[''docker'', ''run'', ''-d'', ''-cidfile'', f] @ a1 @ a2 @ [sn] @ a3"
        have "list_all is_mkdir (ms1 @ ms2 @ ms3)
          \<and> ([CheckCall ?cmd] = [] \<or> (\<exists>cmd. [CheckCall ?cmd] = [CheckCall cmd]))
          \<and> snd (run_container exit_ok manager sn f w)
              = w\<lparr>issued := issued w @ (ms1 @ ms2 @ ms3) @ [CheckCall ?cmd]\<rparr>"
          using g1 g2 g3 a1 a2 a3 m1 m2 m3 w3
          by (simp add: run_container_def check_call_def do_action_alt)
        then show ?thesis by blast
      qed
    qed
  qed
qed

lemma run_container_fragments:
  assumes env: "environ_CHARM_DIR w = Some d" and man: "manager sn = Some rd"
    and v: "fragments d DockerVolumes rd = Inr a1"
    and p: "fragments d DockerPortMappings rd = Inr a2"
    and c: "fragments d DockerContainerArgs rd = Inr a3"
  shows "\<exists>ms. list_all is_mkdir ms
     \<and> run_container exit_ok manager sn f w
         = (if exit_ok ([''docker'', ''run'', ''-d'', ''-cidfile'', f] @ a1 @ a2 @ [sn] @ a3)
            then Inr ()
            else Inl (CalledProcessError ([''docker'', ''run'', ''-d'', ''-cidfile'', f] @ a1 @ a2 @ [sn] @ a3)),
            w\<lparr>issued := issued w @ ms
                  @ [CheckCall ([''docker'', ''run'', ''-d'', ''-cidfile'', f] @ a1 @ a2 @ [sn] @ a3)]\<rparr>)"
proof -
  obtain r1 w1 where g1: "get_args manager sn DockerVolumes w = (r1, w1)"
    by (cases "get_args manager sn DockerVolumes w")
  obtain r2 w2 where g2: "get_args manager sn DockerPortMappings w1 = (r2, w2)"
    by (cases "get_args manager sn DockerPortMappings w1")
  obtain r3 w3 where g3: "get_args manager sn DockerContainerArgs w2 = (r3, w3)"
    by (cases "get_args manager sn DockerContainerArgs w2")
  from get_args_world [of manager sn DockerVolumes w] g1 obtain ms1 where
    m1: "list_all is_mkdir ms1" "w1 = w\<lparr>issued := issued w @ ms1\<rparr>" by auto
  from get_args_world [of manager sn DockerPortMappings w1] g2 obtain ms2 where
    m2: "list_all is_mkdir ms2" "w2 = w1\<lparr>issued := issued w1 @ ms2\<rparr>" by auto
  from get_args_world [of manager sn DockerContainerArgs w2] g3 obtain ms3 where
    m3: "list_all is_mkdir ms3" "w3 = w2\<lparr>issued := issued w2 @ ms3\<rparr>" by auto
  have e1: "environ_CHARM_DIR w1 = Some d" and e2: "environ_CHARM_DIR w2 = Some d"
    using env m1 m2 by simp_all
  have r1: "r1 = Inr a1" using get_args_fragments [where manager = manager and sn = sn and t = DockerVolumes, OF env man] g1 v by simp
  have r2: "r2 = Inr a2" using get_args_fragments [where manager = manager and sn = sn and t = DockerPortMappings, OF e1 man] g2 p by simp
  have r3: "r3 = Inr a3" using get_args_fragments [where manager = manager and sn = sn and t = DockerContainerArgs, OF e2 man] g3 c by simp
  have w3: "w3 = w\<lparr>issued := issued w @ (ms1 @ ms2 @ ms3)\<rparr>" using m1 m2 m3 by simp
  have "list_all is_mkdir (ms1 @ ms2 @ ms3)
     \<and> run_container exit_ok manager sn f w
         = (if exit_ok ([''docker'', ''run'', ''-d'', ''-cidfile'', f] @ a1 @ a2 @ [sn] @ a3)
            then Inr ()
            else Inl (CalledProcessError ([''docker'', ''run'', ''-d'', ''-cidfile'', f] @ a1 @ a2 @ [sn] @ a3)),
            w\<lparr>issued := issued w @ (ms1 @ ms2 @ ms3)
                  @ [CheckCall ([''docker'', ''run'', ''-d'', ''-cidfile'', f] @ a1 @ a2 @ [sn] @ a3)]\<rparr>)"
    using g1 g2 g3 r1 r2 r3 m1 m2 m3 w3
    by (simp add: run_container_def check_call_def do_action_alt)
  then show ?thesis by blast
qed

lemma mkdir_not_run: "list_all is_mkdir ms \<Longrightarrow> a \<in> set ms \<Longrightarrow> \<not> is_run a"
  by (auto simp: list_all_iff is_mkdir_def is_run_def split: action.splits)

lemma stop_tracked_absent:
  "files w f = None \<Longrightarrow> stop_tracked exit_ok f w = (Inr (), w)"
  by (simp add: stop_tracked_def)

lemma stop_tracked_fails:
  "files w f = Some cid \<Longrightarrow> \<not> exit_ok [''docker'', ''stop'', cid] \<Longrightarrow>
   stop_tracked exit_ok f w
     = (Inl (CalledProcessError [''docker'', ''stop'', cid]),
        w\<lparr>issued := issued w @ [CheckCall [''docker'', ''stop'', cid]]\<rparr>)"
  by (simp add: stop_tracked_def check_call_def do_action_alt)

lemma stop_tracked_stops:
  "files w f = Some cid \<Longrightarrow> exit_ok [''docker'', ''stop'', cid] \<Longrightarrow>
   stop_tracked exit_ok f w
     = (Inr (),
        w\<lparr>files := (files w)(f := None),
          issued := issued w @ [CheckCall [''docker'', ''stop'', cid], OsRemove f]\<rparr>)"
  by (simp add: stop_tracked_def check_call_def do_action_alt)


lemma callback_actions:
  "\<exists>pre rest. issued (snd (DockerCallback_call exit_ok manager sn ev w)) = issued w @ pre @ rest
     \<and> (\<forall>a \<in> set pre. \<not> is_run a)
     \<and> (ev \<noteq> ''start'' \<longrightarrow> rest = [])"
proof (cases "environ_CHARM_DIR w")
  case None
  then have "issued (snd (DockerCallback_call exit_ok manager sn ev w)) = issued w @ [] @ []
     \<and> (\<forall>a \<in> set []. \<not> is_run a) \<and> (ev \<noteq> ''start'' \<longrightarrow> [] = ([] :: action list))"
    by (simp add: DockerCallback_call_def)
  then show ?thesis by blast
next
  case (Some d)
  let ?f = "path_join d ''CONTAINER_ID''"
  obtain r1 w1 where st: "stop_tracked exit_ok ?f w = (r1, w1)"
    by (cases "stop_tracked exit_ok ?f w")
  have "\<exists>pre. issued w1 = issued w @ pre \<and> (\<forall>a \<in> set pre. \<not> is_run a)"
  proof (cases "files w ?f")
    case None
    with st have "issued w1 = issued w @ [] \<and> (\<forall>a \<in> set []. \<not> is_run a)"
      by (simp add: stop_tracked_absent)
    then show ?thesis by blast
  next
    case (Some cid)
    show ?thesis
    proof (cases "exit_ok [''docker'', ''stop'', cid]")
      case True
      with st Some have "issued w1 = issued w @ [CheckCall [''docker'', ''stop'', cid], OsRemove ?f]
          \<and> (\<forall>a \<in> set [CheckCall [''docker'', ''stop'', cid], OsRemove ?f]. \<not> is_run a)"
        by (auto simp: stop_tracked_stops is_run_def)
      then show ?thesis by blast
    next
      case False
      with st Some have "issued w1 = issued w @ [CheckCall [''docker'', ''stop'', cid]]
          \<and> (\<forall>a \<in> set [CheckCall [''docker'', ''stop'', cid]]. \<not> is_run a)"
        by (auto simp: stop_tracked_fails is_run_def)
      then show ?thesis by blast
    qed
  qed
  then obtain pre where pre: "issued w1 = issued w @ pre" "\<forall>a \<in> set pre. \<not> is_run a" by blast
  show ?thesis
  proof (cases "ev = ''start'' \<and> (\<exists>u. r1 = Inr u)")
    case False
    then have "snd (DockerCallback_call exit_ok manager sn ev w) = w1"
      using Some st by (cases r1) (auto simp: DockerCallback_call_def Let_def)
    with pre have "issued (snd (DockerCallback_call exit_ok manager sn ev w)) = issued w @ pre @ []
       \<and> (\<forall>a \<in> set pre. \<not> is_run a) \<and> (ev \<noteq> ''start'' \<longrightarrow> [] = ([] :: action list))"
      by simp
    then show ?thesis by blast
  next
    case True
    then have w': "snd (DockerCallback_call exit_ok manager sn ev w)
                   = snd (run_container exit_ok manager sn ?f w1)"
      using Some st by (auto simp: DockerCallback_call_def Let_def)
    from run_container_world [of exit_ok manager sn ?f w1] obtain ms tl where
      "snd (run_container exit_ok manager sn ?f w1) = w1\<lparr>issued := issued w1 @ ms @ tl\<rparr>"
      by blast
    with w' pre True
    have "issued (snd (DockerCallback_call exit_ok manager sn ev w)) = issued w @ pre @ (ms @ tl)
       \<and> (\<forall>a \<in> set pre. \<not> is_run a) \<and> (ev \<noteq> ''start'' \<longrightarrow> ms @ tl = [])"
      by simp
    then show ?thesis by blast
  qed
qed

text \<open>
  C2. Whatever the event, a \<open>docker run\<close> is issued only when the event is \<open>start\<close>. When
  the instance record file exists with container id \<open>cid\<close>, the first action of the
  callback is \<open>docker stop cid\<close>. If that command succeeds, the second action removes the
  record file, the record is absent afterwards, and any \<open>docker run\<close> comes after both;
  if it fails, the exception propagates, nothing else is done and no \<open>docker run\<close> is
  issued.
\<close>

theorem stop_and_remove_before_run:
  "(\<forall>a \<in> set (new_actions w (snd (DockerCallback_call exit_ok manager service_name event_name w))).
       is_run a \<longrightarrow> event_name = ''start'')
   \<and> (environ_CHARM_DIR w = Some d \<and> files w (path_join d ''CONTAINER_ID'') = Some cid \<longrightarrow>
       (if exit_ok [''docker'', ''stop'', cid]
        then \<exists>rest.
               new_actions w (snd (DockerCallback_call exit_ok manager service_name event_name w))
                 = CheckCall [''docker'', ''stop'', cid] # OsRemove (path_join d ''CONTAINER_ID'') # rest
               \<and> files (snd (DockerCallback_call exit_ok manager service_name event_name w))
                    (path_join d ''CONTAINER_ID'') = None
               \<and> (\<forall>a \<in> set rest. is_run a \<longrightarrow> event_name = ''start'')
        else new_actions w (snd (DockerCallback_call exit_ok manager service_name event_name w))
               = [CheckCall [''docker'', ''stop'', cid]]
             \<and> fst (DockerCallback_call exit_ok manager service_name event_name w)
               = Inl (CalledProcessError [''docker'', ''stop'', cid])
             \<and> files (snd (DockerCallback_call exit_ok manager service_name event_name w)) = files w))"
proof -
  let ?w' = "snd (DockerCallback_call exit_ok manager service_name event_name w)"
  from callback_actions [of exit_ok manager service_name event_name w] obtain pre rest where
    pr: "issued ?w' = issued w @ pre @ rest" "\<forall>a \<in> set pre. \<not> is_run a"
        "event_name \<noteq> ''start'' \<longrightarrow> rest = []"
    by blast
  then have na: "new_actions w ?w' = pre @ rest" by (simp add: new_actions_def)
  have only_start: "\<forall>a \<in> set (new_actions w ?w'). is_run a \<longrightarrow> event_name = ''start''"
    using na pr by auto
  have tracked: "(if exit_ok [''docker'', ''stop'', cid]
        then \<exists>rest. new_actions w ?w'
                 = CheckCall [''docker'', ''stop'', cid] # OsRemove (path_join d ''CONTAINER_ID'') # rest
               \<and> files ?w' (path_join d ''CONTAINER_ID'') = None
               \<and> (\<forall>a \<in> set rest. is_run a \<longrightarrow> event_name = ''start'')
        else new_actions w ?w' = [CheckCall [''docker'', ''stop'', cid]]
             \<and> fst (DockerCallback_call exit_ok manager service_name event_name w)
               = Inl (CalledProcessError [''docker'', ''stop'', cid])
             \<and> files ?w' = files w)"
    if env: "environ_CHARM_DIR w = Some d" and rec: "files w (path_join d ''CONTAINER_ID'') = Some cid"
  proof (cases "exit_ok [''docker'', ''stop'', cid]")
    case False
    then show ?thesis
      using env rec
      by (simp add: DockerCallback_call_def Let_def stop_tracked_fails new_actions_def)
  next
    case True
    let ?f = "path_join d ''CONTAINER_ID''"
    let ?w1 = "w\<lparr>files := (files w)(?f := None),
                 issued := issued w @ [CheckCall [''docker'', ''stop'', cid], OsRemove ?f]\<rparr>"
    have st: "stop_tracked exit_ok ?f w = (Inr (), ?w1)"
      using rec True by (rule stop_tracked_stops)
    show ?thesis
    proof (cases "event_name = ''start''")
      case False
      with st env have "?w' = ?w1" by (simp add: DockerCallback_call_def Let_def)
      then have "new_actions w ?w' = CheckCall [''docker'', ''stop'', cid] # OsRemove ?f # []
               \<and> files ?w' ?f = None \<and> (\<forall>a \<in> set []. is_run a \<longrightarrow> event_name = ''start'')"
        by (simp add: new_actions_def)
      with True show ?thesis by auto
    next
      case start: True
      with st env have w': "?w' = snd (run_container exit_ok manager service_name ?f ?w1)"
        by (simp add: DockerCallback_call_def Let_def)
      from run_container_world [of exit_ok manager service_name ?f ?w1] obtain ms tl where
        "snd (run_container exit_ok manager service_name ?f ?w1)
           = ?w1\<lparr>issued := issued ?w1 @ ms @ tl\<rparr>"
        by blast
      with w' have "new_actions w ?w' = CheckCall [''docker'', ''stop'', cid] # OsRemove ?f # (ms @ tl)
               \<and> files ?w' ?f = None"
        by (simp add: new_actions_def)
      with True start show ?thesis by auto
    qed
  qed
  from only_start tracked show ?thesis by blast
qed


theorem stop_and_remove_before_run_witness:
  "environ_CHARM_DIR tracked_world = Some ''/charm''
   \<and> files tracked_world (path_join ''/charm'' ''CONTAINER_ID'') = Some ''4f2a''
   \<and> (\<exists>rest.
         new_actions tracked_world
           (snd (DockerCallback_call (\<lambda>_. True) rethinkdb_manager ''dockerfile/rethinkdb'' ''start''
                   tracked_world))
           = CheckCall [''docker'', ''stop'', ''4f2a''] # OsRemove ''/charm/CONTAINER_ID'' # rest
         \<and> files (snd (DockerCallback_call (\<lambda>_. True) rethinkdb_manager ''dockerfile/rethinkdb''
                         ''start'' tracked_world)) ''/charm/CONTAINER_ID'' = None)
   \<and> new_actions tracked_world
        (snd (DockerCallback_call (\<lambda>_. False) rethinkdb_manager ''dockerfile/rethinkdb'' ''start''
                tracked_world))
        = [CheckCall [''docker'', ''stop'', ''4f2a'']]"
proof -
  have pj: "path_join ''/charm'' ''CONTAINER_ID'' = ''/charm/CONTAINER_ID''"
    by (simp add: path_join_def isabs_def)
  have h: "environ_CHARM_DIR tracked_world = Some ''/charm''"
     "files tracked_world ''/charm/CONTAINER_ID'' = Some ''4f2a''"
    by (simp_all add: tracked_world_def)
  show ?thesis
    using h
      stop_and_remove_before_run [of tracked_world "\<lambda>_. True" rethinkdb_manager
         "''dockerfile/rethinkdb''" "''start''" "''/charm''" "''4f2a''"]
      stop_and_remove_before_run [of tracked_world "\<lambda>_. False" rethinkdb_manager
         "''dockerfile/rethinkdb''" "''start''" "''/charm''" "''4f2a''"]
    unfolding pj by auto
qed

text \<open>
  C6. On a \<open>start\<close> event (the charm directory set, the service registered, every
  provider's fragment built without exception, and the stop of a tracked container, if
  there is one, successful), the last action of the callback is the run command, and its
  argument list is \<open>docker run -d -cidfile FILE\<close>, then the fragments of the volume
  providers, then those of the port providers, then the service name (the image), then
  those of the container-argument providers, each group in the order of \<open>required_data\<close>.
  No other action of the call is a \<open>docker run\<close>.
\<close>

theorem run_command_fragment_order:
  assumes "environ_CHARM_DIR w = Some d"
    and "manager service_name = Some required_data"
    and "fragments d DockerVolumes required_data = Inr volume_args"
    and "fragments d DockerPortMappings required_data = Inr port_args"
    and "fragments d DockerContainerArgs required_data = Inr container_args"
    and "\<forall>cid. files w (path_join d ''CONTAINER_ID'') = Some cid \<longrightarrow> exit_ok [''docker'', ''stop'', cid]"
  shows "\<exists>pre.
     new_actions w (snd (DockerCallback_call exit_ok manager service_name ''start'' w))
       = pre @ [CheckCall ([''docker'', ''run'', ''-d'', ''-cidfile'', path_join d ''CONTAINER_ID'']
                            @ volume_args @ port_args @ [service_name] @ container_args)]
     \<and> (\<forall>a \<in> set pre. \<not> is_run a)"
proof -
  let ?f = "path_join d ''CONTAINER_ID''"
  let ?cmd = "[''docker'', ''run'', ''-d'', ''-cidfile'', ?f]
                @ volume_args @ port_args @ [service_name] @ container_args"
  obtain r1 w1 where st: "stop_tracked exit_ok ?f w = (r1, w1)"
    by (cases "stop_tracked exit_ok ?f w")
  have "\<exists>pre. r1 = Inr () \<and> issued w1 = issued w @ pre \<and> environ_CHARM_DIR w1 = Some d
           \<and> (\<forall>a \<in> set pre. \<not> is_run a)"
  proof (cases "files w ?f")
    case None
    with st assms(1) have "r1 = Inr () \<and> issued w1 = issued w @ [] \<and> environ_CHARM_DIR w1 = Some d
           \<and> (\<forall>a \<in> set []. \<not> is_run a)"
      by (simp add: stop_tracked_absent)
    then show ?thesis by blast
  next
    case (Some cid)
    with assms(6) have ok: "exit_ok [''docker'', ''stop'', cid]" by simp
    with st Some assms(1) have "r1 = Inr ()
         \<and> issued w1 = issued w @ [CheckCall [''docker'', ''stop'', cid], OsRemove ?f]
         \<and> environ_CHARM_DIR w1 = Some d
         \<and> (\<forall>a \<in> set [CheckCall [''docker'', ''stop'', cid], OsRemove ?f]. \<not> is_run a)"
      by (auto simp: stop_tracked_stops is_run_def)
    then show ?thesis by blast
  qed
  then obtain pre where r1: "r1 = Inr ()" and pre: "issued w1 = issued w @ pre"
    and e1: "environ_CHARM_DIR w1 = Some d" and nr: "\<forall>a \<in> set pre. \<not> is_run a"
    by blast
  from run_container_fragments [where manager = manager and sn = service_name and exit_ok = exit_ok
      and f = ?f, OF e1 assms(2) assms(3) assms(4) assms(5)]
  obtain ms where ms: "list_all is_mkdir ms"
    and rc: "snd (run_container exit_ok manager service_name ?f w1)
             = w1\<lparr>issued := issued w1 @ ms @ [CheckCall ?cmd]\<rparr>"
    by auto
  have "snd (DockerCallback_call exit_ok manager service_name ''start'' w)
          = snd (run_container exit_ok manager service_name ?f w1)"
    using assms(1) st r1 by (simp add: DockerCallback_call_def Let_def)
  with rc pre have "new_actions w (snd (DockerCallback_call exit_ok manager service_name ''start'' w))
          = (pre @ ms) @ [CheckCall ?cmd]"
    by (simp add: new_actions_def)
  moreover have "\<forall>a \<in> set (pre @ ms). \<not> is_run a"
    using nr ms mkdir_not_run by auto
  ultimately show ?thesis by blast
qed

lemma rethinkdb_fragments:
  "fragments ''/charm'' DockerVolumes rethinkdb_required_data = Inr [''-v'', ''/charm/data:/rethinkdb'']"
  "fragments ''/charm'' DockerPortMappings rethinkdb_required_data
     = Inr [''-p'', ''80:8080'', ''-p'', ''28015:28015'', ''-p'', ''29015:29015'']"
  "fragments ''/charm'' DockerContainerArgs rethinkdb_required_data
     = Inr [''rethinkdb'', ''--bind'', ''all'', ''--join'', ''10.0.0.10:29015'']"
  by (simp_all add: rethinkdb_required_data_def volume_fragments_def port_fragments_def
        port_pair_def path_join_def isabs_def DockerRelation_build_args_def collected_def
        ClusterPeers_map_def host_port_def str_eval)

theorem run_command_fragment_order_witness:
  "environ_CHARM_DIR tracked_world = Some ''/charm''
   \<and> rethinkdb_manager ''dockerfile/rethinkdb'' = Some rethinkdb_required_data
   \<and> fragments ''/charm'' DockerVolumes rethinkdb_required_data
       = Inr [''-v'', ''/charm/data:/rethinkdb'']
   \<and> fragments ''/charm'' DockerPortMappings rethinkdb_required_data
       = Inr [''-p'', ''80:8080'', ''-p'', ''28015:28015'', ''-p'', ''29015:29015'']
   \<and> fragments ''/charm'' DockerContainerArgs rethinkdb_required_data
       = Inr [''rethinkdb'', ''--bind'', ''all'', ''--join'', ''10.0.0.10:29015'']
   \<and> (\<exists>pre.
        new_actions tracked_world
          (snd (DockerCallback_call (\<lambda>_. True) rethinkdb_manager ''dockerfile/rethinkdb'' ''start''
                  tracked_world))
        = pre @ [CheckCall [''docker'', ''run'', ''-d'', ''-cidfile'', ''/charm/CONTAINER_ID'',
                            ''-v'', ''/charm/data:/rethinkdb'',
                            ''-p'', ''80:8080'', ''-p'', ''28015:28015'', ''-p'', ''29015:29015'',
                            ''dockerfile/rethinkdb'',
                            ''rethinkdb'', ''--bind'', ''all'', ''--join'', ''10.0.0.10:29015'']])"
proof -
  have pj: "path_join ''/charm'' ''CONTAINER_ID'' = ''/charm/CONTAINER_ID''"
    by (simp add: path_join_def isabs_def)
  have e: "environ_CHARM_DIR tracked_world = Some ''/charm''"
    by (simp add: tracked_world_def)
  have m: "rethinkdb_manager ''dockerfile/rethinkdb'' = Some rethinkdb_required_data"
    by (simp add: rethinkdb_manager_def)
  have ok: "\<forall>cid. files tracked_world (path_join ''/charm'' ''CONTAINER_ID'') = Some cid
          \<longrightarrow> (\<lambda>_. True) [''docker'', ''stop'', cid]"
    by simp
  from run_command_fragment_order [where manager = rethinkdb_manager
        and service_name = "''dockerfile/rethinkdb''" and exit_ok = "\<lambda>_. True",
        OF e m rethinkdb_fragments ok]
  obtain pre where
    "new_actions tracked_world
          (snd (DockerCallback_call (\<lambda>_. True) rethinkdb_manager ''dockerfile/rethinkdb'' ''start''
                  tracked_world))
        = pre @ [CheckCall ([''docker'', ''run'', ''-d'', ''-cidfile'', path_join ''/charm'' ''CONTAINER_ID'']
                  @ [''-v'', ''/charm/data:/rethinkdb'']
                  @ [''-p'', ''80:8080'', ''-p'', ''28015:28015'', ''-p'', ''29015:29015'']
                  @ [''dockerfile/rethinkdb'']
                  @ [''rethinkdb'', ''--bind'', ''all'', ''--join'', ''10.0.0.10:29015''])]"
    by blast
  then have "\<exists>pre. new_actions tracked_world
          (snd (DockerCallback_call (\<lambda>_. True) rethinkdb_manager ''dockerfile/rethinkdb'' ''start''
                  tracked_world))
        = pre @ [CheckCall [''docker'', ''run'', ''-d'', ''-cidfile'', ''/charm/CONTAINER_ID'',
                            ''-v'', ''/charm/data:/rethinkdb'',
                            ''-p'', ''80:8080'', ''-p'', ''28015:28015'', ''-p'', ''29015:29015'',
                            ''dockerfile/rethinkdb'',
                            ''rethinkdb'', ''--bind'', ''all'', ''--join'', ''10.0.0.10:29015'']]"
    unfolding pj by auto
  with e m rethinkdb_fragments show ?thesis by blast
qed

lemma rethinkdb_start_actions:
  "new_actions tracked_world
     (snd (DockerCallback_call (\<lambda>_. True) rethinkdb_manager ''dockerfile/rethinkdb'' ''start''
             tracked_world))
   = [CheckCall [''docker'', ''stop'', ''4f2a''],
      OsRemove ''/charm/CONTAINER_ID'',
      Mkdir ''/charm/data'',
      CheckCall [''docker'', ''run'', ''-d'', ''-cidfile'', ''/charm/CONTAINER_ID'',
                 ''-v'', ''/charm/data:/rethinkdb'',
                 ''-p'', ''80:8080'', ''-p'', ''28015:28015'', ''-p'', ''29015:29015'',
                 ''dockerfile/rethinkdb'',
                 ''rethinkdb'', ''--bind'', ''all'', ''--join'', ''10.0.0.10:29015'']]"
  by (simp add: DockerCallback_call_def Let_def tracked_world_def rethinkdb_manager_def
        rethinkdb_required_data_def stop_tracked_def check_call_def do_action_def
        run_container_def get_args_def DockerVolumes_build_args_def
        DockerPortMappings_build_args_def DockerRelation_build_args_def collected_def
        ClusterPeers_map_def host_port_def port_pair_def path_join_def isabs_def
        new_actions_def str_eval)

section \<open>The order of the port fragments\<close>

lemma newsize_8: "minused < 8 \<Longrightarrow> newsize_loop 8 minused = 8"
  by (simp add: newsize_loop.simps)

lemma replicate_8: "replicate 8 x = [x, x, x, x, x, x, x, x]"
  by (simp add: numeral_eq_Suc)

lemma list_update_Cons_numeral:
  "(x # xs)[numeral v := y] = x # xs[numeral v - 1 := y]"
  by (simp add: numeral_eq_Suc)

lemmas dict_eval =
  replicate_8 list_update_Cons_numeral dict_display_def PyDict_SetItem_def insertdict_def lookdict_def PyDict_New_def
  int_hash_def size_t_def ma_used_def DockerPortMappings_init_def PyDict_Merge_def
  iteritems_def Let_def

lemma display_2_1:
  "dict_display [(2, 20), (1, 10 :: int)]
   = Some \<lparr> ma_mask = 7,
            ma_table = [None, Some (1, 10), Some (2, 20), None, None, None, None, None] \<rparr>"
  by (simp add: dict_eval)

lemma init_2_1:
  "DockerPortMappings_init
     \<lparr> ma_mask = 7, ma_table = [None, Some (1, 10), Some (2, 20), None, None, None, None, None] \<rparr>
   = Some \<lparr> ma_mask = 7,
            ma_table = [None, Some (1, 10), Some (2, 20), None, None, None, None, None] \<rparr>"
  by (simp add: dict_eval)

lemma args_2_1: "port_mapping_args [(2, 20), (1, 10)] = Some [''-p'', ''1:10'', ''-p'', ''2:20'']"
  by (simp add: port_mapping_args_def display_2_1 init_2_1 iteritems_def
        DockerPortMappings_build_args_def port_pair_def str_eval)


lemma args_rethinkdb:
  "port_mapping_args [(80, 8080), (28015, 28015), (29015, 29015)]
   = Some [''-p'', ''80:8080'', ''-p'', ''28015:28015'', ''-p'', ''29015:29015'']"
proof -
  have d: "dict_display [(80, 8080), (28015, 28015), (29015, 29015 :: int)]
     = Some \<lparr> ma_mask = 7,
              ma_table = [Some (80, 8080), None, None, Some (29015, 29015), None, None, None,
                          Some (28015, 28015)] \<rparr>"
    by (simp add: dict_eval lookdict_probe.simps)
  have i: "DockerPortMappings_init
       \<lparr> ma_mask = 7,
         ma_table = [Some (80, 8080), None, None, Some (29015, 29015), None, None, None,
                     Some (28015, 28015)] \<rparr>
     = Some \<lparr> ma_mask = 7,
              ma_table = [Some (80, 8080), None, None, Some (28015, 28015), None, None, None,
                          Some (29015, 29015)] \<rparr>"
    by (simp add: dict_eval lookdict_probe.simps)
  show ?thesis
    by (simp add: port_mapping_args_def d i iteritems_def DockerPortMappings_build_args_def
          port_pair_def str_eval)
qed

text \<open>
  C7, as stated, fails: for the mapping written \<open>{2: 20, 1: 10}\<close> the provider emits the
  fragment of port \<open>1\<close> before that of port \<open>2\<close>, not the pairs in the order written.
\<close>

theorem port_order_not_as_written:
  "port_mapping_args [(2, 20), (1, 10)] = Some [''-p'', ''1:10'', ''-p'', ''2:20'']
   \<and> port_fragments [(2, 20), (1, 10)] = [''-p'', ''2:20'', ''-p'', ''1:10'']
   \<and> port_mapping_args [(2, 20), (1, 10)] \<noteq> Some (port_fragments [(2, 20), (1, 10)])"
  by (simp add: args_2_1 port_fragments_def port_pair_def str_eval)

text \<open>
  C7, amended. The provider emits one fragment \<open>-p host:container\<close> per item of the
  mapping, in the order in which the mapping iterates over its items: \<open>build_args\<close> on a
  mapping whose iteration yields \<open>self\<close> gives the fragments of \<open>self\<close> in that order, two
  tokens per item; and for a mapping built from written pairs, the order is that of the
  slots of the constructed \<open>dict\<close>.
\<close>

theorem port_fragments_in_iteration_order:
  "DockerPortMappings_build_args self = port_fragments self
   \<and> length (DockerPortMappings_build_args self) = 2 * length self
   \<and> (dict_display pairs = Some d \<and> DockerPortMappings_init d = Some mp \<longrightarrow>
        port_mapping_args pairs = Some (port_fragments (iteritems mp)))"
proof -
  have b: "DockerPortMappings_build_args m = port_fragments m" for m
    by (simp add: DockerPortMappings_build_args_def port_args_loop_acc)
  have l: "length (port_fragments m) = 2 * length m" for m
    by (induction m) (auto simp: port_fragments_def)
  show ?thesis
    by (simp add: b l port_mapping_args_def)
qed

theorem port_fragments_in_iteration_order_witness:
  "dict_display [(2, 20), (1, 10 :: int)]
     = Some \<lparr> ma_mask = 7,
              ma_table = [None, Some (1, 10), Some (2, 20), None, None, None, None, None] \<rparr>
   \<and> DockerPortMappings_init
       \<lparr> ma_mask = 7, ma_table = [None, Some (1, 10), Some (2, 20), None, None, None, None, None] \<rparr>
     = Some \<lparr> ma_mask = 7,
              ma_table = [None, Some (1, 10), Some (2, 20), None, None, None, None, None] \<rparr>
   \<and> port_mapping_args [(2, 20), (1, 10)] = Some (port_fragments [(1, 10), (2, 20)])
   \<and> DockerPortMappings_build_args [(1, 10), (2, 20)] = [''-p'', ''1:10'', ''-p'', ''2:20'']"
  using port_fragments_in_iteration_order
          [of "[(1, 10), (2, 20)]" "[(2, 20), (1, 10)]"
              "\<lparr> ma_mask = 7, ma_table = [None, Some (1, 10), Some (2, 20), None, None, None, None, None] \<rparr>"
              "\<lparr> ma_mask = 7, ma_table = [None, Some (1, 10), Some (2, 20), None, None, None, None, None] \<rparr>"]
        display_2_1 init_2_1
  by (simp add: iteritems_def port_fragments_def port_pair_def str_eval)

end
